theory Spec2Isabelle
  imports Complex_Main
begin

section \<open>The frame loop of \<open>framework/app-base.js\<close>\<close>

subsection \<open>JavaScript values\<close>

text \<open>
  Numbers are modelled as reals (rounding of doubles is left out). A timestamp argument
  that was not passed is \<open>None\<close>. The expression \<open>x || y\<close> on numbers takes \<open>y\<close> when
  \<open>x\<close> is undefined or zero.
\<close>

definition js_or :: "real option \<Rightarrow> real \<Rightarrow> real" where
  "js_or x y = (case x of None \<Rightarrow> y | Some v \<Rightarrow> if v = 0 then y else v)"

text \<open>
  Modelled from the spec: \<open>math.clamp\<close> of \<open>core/math/math.js\<close>, which is not among the
  sources; \<open>clamp v lo hi\<close> restricts \<open>v\<close> to the interval from \<open>lo\<close> to \<open>hi\<close>.
\<close>

definition clamp :: "real \<Rightarrow> real \<Rightarrow> real \<Rightarrow> real" where
  "clamp v lo hi = (if hi \<le> v then hi else if v \<le> lo then lo else v)"

subsection \<open>State\<close>

text \<open>The errors thrown: a \<open>TypeError\<close> (a property read or a call on \<open>null\<close> or
  \<open>undefined\<close>, or a second definition of a fixed property), a \<open>ReferenceError\<close> (a name
  that the host does not define), a \<open>RangeError\<close> (the call stack exhausted), and a plain
  \<open>Error\<close> thrown by a collaborator.\<close>

datatype error = TypeError | ReferenceError | RangeError | JsError

datatype source = Window | XrSession

datatype chan = AppEv string | SysEv string

text \<open>What a listener may do to the application: call \<open>app.destroy()\<close>, or set
  \<open>app.renderNextFrame = true\<close>.\<close>

datatype action = CallDestroy | RequestRender

datatype event =
    Fire chan
  | DeviceUpdate
  | InputUpdate string
  | UpdateCanvasSize
  | FrameStart
  | SyncHierarchy
  | BatcherUpdateAll
  | RenderComposition
  | FrameEnd
  | XrUpdate
  | Cancel source nat
  | Request source nat
  | AssertFailed string
  | Teardown

text \<open>The graphics device: whether its context is lost, and whether the accessor
  properties of its memory counters, which the application statistics define, are
  defined.\<close>

record device =
  contextLost :: bool
  vramAccessors :: bool

text \<open>The mouse of \<open>platform/input/mouse.js\<close>: the current and the last button states.\<close>

record mouse_dev =
  buttons :: "bool \<times> bool \<times> bool"
  lastbuttons :: "bool \<times> bool \<times> bool"

text \<open>
  The application object together with the host it runs on. Fields named \<open>host_\<close>
  belong to the host: the \<open>platform\<close> flags, the build mode, and the frame requests that
  are outstanding (requested and neither canceled nor delivered). \<open>tick_fn\<close> says that
  \<open>this.tick\<close> holds the function made by \<open>makeTick\<close>; \<open>systems\<close> and \<open>loader\<close> say
  that the field holds its object and not \<open>null\<close>, \<open>system_ids\<close> are the ids of the
  component systems registered; \<open>xr\<close> is \<open>None\<close> without an XR
  manager and \<open>Some s\<close> with one, \<open>s\<close> telling whether it has a session. \<open>trace\<close>
  records, in order, the calls the application makes to its collaborators.
\<close>

record app =
  graphicsDevice :: "device option"
  tick_fn :: bool
  systems :: bool
  system_ids :: "string list"
  loader :: bool
  inFrameUpdate :: bool
  destroyRequested :: bool
  alreadyStarted :: bool
  librariesLoaded :: bool
  inTools :: bool
  time :: real
  timeScale :: real
  maxDeltaTime :: real
  frame :: nat
  stats_dt :: real
  stats_ms :: real
  frameRequestId :: "nat option"
  autoRender :: bool
  renderNextFrame :: bool
  xr :: "bool option"
  controller :: bool
  mouse :: "mouse_dev option"
  keyboard :: bool
  gamepads :: bool
  batcher :: bool
  enableBundles :: bool
  listeners :: "chan \<Rightarrow> action list"
  trace :: "event list"
  host_browser :: bool
  host_worker :: bool
  host_debug :: bool
  host_pending :: "(source \<times> nat) list"
  host_counter :: nat

text \<open>The field initialisers of the class, on a host; \<open>enableBundles\<close> is initialised to
  whether the host has a \<open>TextDecoder\<close>, which is taken as given.\<close>

definition new_app :: "bool \<Rightarrow> bool \<Rightarrow> bool \<Rightarrow> app" where
  "new_app browser worker debug =
     \<lparr> graphicsDevice = None, tick_fn = False, systems = True, system_ids = [], loader = True,
       inFrameUpdate = False, destroyRequested = False, alreadyStarted = False,
       librariesLoaded = False, inTools = False, time = 0, timeScale = 1,
       maxDeltaTime = 1 / 10, frame = 0, stats_dt = 0, stats_ms = 0,
       frameRequestId = None, autoRender = True, renderNextFrame = False, xr = None,
       controller = False, mouse = None, keyboard = False, gamepads = False,
       batcher = False, enableBundles = True, listeners = (\<lambda>c. []), trace = [],
       host_browser = browser, host_worker = worker, host_debug = debug,
       host_pending = [], host_counter = 0 \<rparr>"

subsection \<open>Sequencing steps that may throw\<close>

fun seq :: "(app \<Rightarrow> error + app) list \<Rightarrow> app \<Rightarrow> error + app" where
  "seq [] a = Inr a"
| "seq (f # fs) a = (case f a of Inl e \<Rightarrow> Inl e | Inr a' \<Rightarrow> seq fs a')"

definition ok :: "(app \<Rightarrow> app) \<Rightarrow> app \<Rightarrow> error + app" where
  "ok f a = Inr (f a)"

definition emit :: "event \<Rightarrow> app \<Rightarrow> app" where
  "emit e a = a\<lparr>trace := trace a @ [e]\<rparr>"

subsection \<open>Frame requests\<close>

text \<open>\<open>cancelAnimationFrame(id)\<close> on one source removes that request from the outstanding ones.\<close>

definition cancel_request :: "source \<Rightarrow> nat \<Rightarrow> app \<Rightarrow> app" where
  "cancel_request s n a =
     emit (Cancel s n) (a\<lparr>host_pending := removeAll (s, n) (host_pending a)\<rparr>)"

text \<open>\<open>requestAnimationFrame(tick)\<close> on one source returns a fresh id, which is not zero.\<close>

definition request_frame :: "source \<Rightarrow> app \<Rightarrow> app" where
  "request_frame s a =
     (let n = Suc (host_counter a)
      in emit (Request s n)
           (a\<lparr>host_counter := n, host_pending := host_pending a @ [(s, n)],
              frameRequestId := Some n\<rparr>))"

text \<open>
  \<open>AppBase.cancelTick\<close>; a request id is truthy when it is defined and not zero. The
  request is canceled through \<open>window.cancelAnimationFrame\<close>, and \<open>window\<close> is defined on a
  browser host only: on any other host the reference to it throws, and the request and
  its id stay as they are.
\<close>

definition cancelTick :: "app \<Rightarrow> error + app" where
  "cancelTick a =
     (case frameRequestId a of
        None \<Rightarrow> Inr a
      | Some n \<Rightarrow>
          if n = 0 then Inr a
          else if host_browser a
               then Inr ((cancel_request Window n a)\<lparr>frameRequestId := None\<rparr>)
               else Inl ReferenceError)"

subsection \<open>\<open>destroy\<close>\<close>

text \<open>
  A listener of the \<open>destroy\<close> notification is called by \<open>destroy\<close> itself, after its
  guard. When the listener calls \<open>app.destroy()\<close> while the in-frame flag is cleared, as it
  is there, \<open>destroy\<close> passes its guard again and fires the notification again, which calls
  the listener again: the recursion has no end, and the call fails with a \<open>RangeError\<close>
  when the stack is exhausted.
\<close>

fun destroy_listener :: "action \<Rightarrow> app \<Rightarrow> error + app" where
  "destroy_listener CallDestroy a =
     (if inFrameUpdate a then Inr (a\<lparr>destroyRequested := True\<rparr>) else Inl RangeError)"
| "destroy_listener RequestRender a = Inr (a\<lparr>renderNextFrame := True\<rparr>)"

definition fire_destroy :: "app \<Rightarrow> error + app" where
  "fire_destroy a =
     seq (map destroy_listener (listeners a (AppEv ''destroy''))) (emit (Fire (AppEv ''destroy'')) a)"

text \<open>
  The release of what the application owns: the input devices, the systems, the loader,
  the XR session (whose end drops its frame callbacks), the renderer and the graphics
  device, \<open>this.tick = null\<close>, and the removal of all listeners. The calls on
  \<open>this.systems\<close> and \<open>this.loader\<close> throw when the field is \<open>null\<close>.
\<close>

definition released :: "app \<Rightarrow> app" where
  "released a =
     (emit Teardown a)
       \<lparr> mouse := None, keyboard := False, gamepads := False, controller := False,
         systems := False, loader := False, batcher := False,
         xr := (case xr a of None \<Rightarrow> None | Some s \<Rightarrow> Some False),
         host_pending :=
           (case xr a of None \<Rightarrow> host_pending a
            | Some s \<Rightarrow> filter (\<lambda>p. fst p \<noteq> XrSession) (host_pending a)),
         graphicsDevice := None, tick_fn := False, listeners := (\<lambda>c. []) \<rparr>"

definition release :: "app \<Rightarrow> error + app" where
  "release a = (if systems a \<and> loader a then Inr (released a) else Inl TypeError)"

text \<open>The body of \<open>destroy\<close> after its guard and the read of the canvas id: the
  \<open>destroy\<close> notification, the release, and \<open>cancelTick\<close> as the last statement.\<close>

definition teardown :: "app \<Rightarrow> error + app" where
  "teardown = seq [fire_destroy, release, cancelTick]"

definition destroy :: "app \<Rightarrow> error + app" where
  "destroy a =
     (if inFrameUpdate a then Inr (a\<lparr>destroyRequested := True\<rparr>)
      else (case graphicsDevice a of
              None \<Rightarrow> Inl TypeError
            | Some d \<Rightarrow> teardown a))"

subsection \<open>Notifications\<close>

fun run_action :: "action \<Rightarrow> app \<Rightarrow> error + app" where
  "run_action CallDestroy a = destroy a"
| "run_action RequestRender a = Inr (a\<lparr>renderNextFrame := True\<rparr>)"

definition fire :: "chan \<Rightarrow> app \<Rightarrow> error + app" where
  "fire c a = seq (map run_action (listeners a c)) (emit (Fire c) a)"

text \<open>\<open>this.systems.fire(name, ...)\<close> throws when \<open>this.systems\<close> is \<open>null\<close>.\<close>

definition sysfire :: "string \<Rightarrow> app \<Rightarrow> error + app" where
  "sysfire name a = (if systems a then fire (SysEv name) a else Inl TypeError)"

text \<open>A method call on \<open>this.graphicsDevice\<close> throws when the device is \<open>null\<close>.\<close>

definition device_call :: "event \<Rightarrow> app \<Rightarrow> error + app" where
  "device_call e a = (case graphicsDevice a of None \<Rightarrow> Inl TypeError | Some d \<Rightarrow> Inr (emit e a))"

subsection \<open>\<open>inputUpdate\<close>, \<open>update\<close>, \<open>render\<close>\<close>

text \<open>\<open>Mouse.update\<close> copies each of the three current button states into the last ones.\<close>

definition update_mouse :: "mouse_dev \<Rightarrow> mouse_dev" where
  "update_mouse m =
     (case buttons m of (b0, b1, b2) \<Rightarrow> m\<lparr>lastbuttons := (b0, b1, b2)\<rparr>)"

definition inputUpdate :: "real \<Rightarrow> app \<Rightarrow> app" where
  "inputUpdate dt a =
     (let a1 = (if controller a then emit (InputUpdate ''controller'') a else a);
          a2 = (case mouse a1 of None \<Rightarrow> a1
                | Some m \<Rightarrow> emit (InputUpdate ''mouse'') (a1\<lparr>mouse := Some (update_mouse m)\<rparr>));
          a3 = (if keyboard a2 then emit (InputUpdate ''keyboard'') a2 else a2)
      in if gamepads a3 then emit (InputUpdate ''gamepads'') a3 else a3)"

definition update :: "real \<Rightarrow> app \<Rightarrow> error + app" where
  "update dt =
     seq [ ok (\<lambda>a. a\<lparr>frame := frame a + 1\<rparr>),
           device_call DeviceUpdate,
           (\<lambda>a. sysfire (if inTools a then ''toolsUpdate'' else ''update'') a),
           sysfire ''animationUpdate'',
           sysfire ''postUpdate'',
           fire (AppEv ''update''),
           ok (inputUpdate dt) ]"

definition render :: "app \<Rightarrow> error + app" where
  "render =
     seq [ ok (emit UpdateCanvasSize),
           device_call FrameStart,
           fire (AppEv ''prerender''),
           ok (emit SyncHierarchy),
           ok (\<lambda>a. if batcher a then emit BatcherUpdateAll a else a),
           ok (emit RenderComposition),
           fire (AppEv ''postrender''),
           device_call FrameEnd ]"

subsection \<open>The tick function made by \<open>makeTick\<close>\<close>

text \<open>The time computation of the tick: the current time, the elapsed milliseconds and
  the frame delta, from the stored time, the timestamp argument and the wall clock
  \<open>now()\<close>, whose reading at the tick is an argument.\<close>

definition current_time :: "real option \<Rightarrow> real \<Rightarrow> real" where
  "current_time timestamp now = js_or timestamp now"

definition frame_ms :: "real \<Rightarrow> real option \<Rightarrow> real \<Rightarrow> real" where
  "frame_ms prev timestamp now =
     current_time timestamp now - js_or (Some prev) (current_time timestamp now)"

definition frame_dt :: "real \<Rightarrow> real \<Rightarrow> real \<Rightarrow> real option \<Rightarrow> real \<Rightarrow> real" where
  "frame_dt maxDelta scale prev timestamp now =
     clamp (frame_ms prev timestamp now / 1000) 0 maxDelta * scale"

definition cancel_hanging :: "app \<Rightarrow> app" where
  "cancel_hanging a =
     (case frameRequestId a of
        None \<Rightarrow> a
      | Some n \<Rightarrow>
          if n = 0 then a
          else (let a1 = (if xr a = Some True then cancel_request XrSession n a else a)
                in (cancel_request Window n a1)\<lparr>frameRequestId := None\<rparr>))"

definition request_next :: "app \<Rightarrow> app" where
  "request_next a =
     (if xr a = Some True then request_frame XrSession a
      else if host_browser a \<or> host_worker a then request_frame Window a
      else a\<lparr>frameRequestId := None\<rparr>)"

text \<open>Of the frame statistics only the recorded delta and milliseconds are kept.\<close>

definition fillFrameStatsBasic :: "real \<Rightarrow> real \<Rightarrow> app \<Rightarrow> app" where
  "fillFrameStatsBasic dt ms a = a\<lparr>stats_dt := dt, stats_ms := ms\<rparr>"

text \<open>The XR part of the tick: \<open>xrFrame\<close> is \<open>None\<close> without an XR frame and \<open>Some r\<close>
  with one, \<open>r\<close> being what \<open>xr.update(xrFrame)\<close> returns when there is an XR manager.\<close>

definition skip_update :: "bool option \<Rightarrow> app \<Rightarrow> bool" where
  "skip_update xrFrame a =
     (case xrFrame of None \<Rightarrow> False | Some r \<Rightarrow> \<not> (xr a \<noteq> None \<and> r))"

definition xr_step :: "bool option \<Rightarrow> app \<Rightarrow> app" where
  "xr_step xrFrame a = (if xrFrame \<noteq> None \<and> xr a \<noteq> None then emit XrUpdate a else a)"

definition frame_body :: "real \<Rightarrow> app \<Rightarrow> error + app" where
  "frame_body dt =
     seq [ update dt,
           fire (AppEv ''framerender''),
           (\<lambda>a. if autoRender a \<or> renderNextFrame a
                 then seq [render, ok (\<lambda>a. a\<lparr>renderNextFrame := False\<rparr>)] a
                 else Inr a),
           fire (AppEv ''frameend'') ]"

definition tick :: "real option \<Rightarrow> bool option \<Rightarrow> real \<Rightarrow> app \<Rightarrow> error + app" where
  "tick timestamp xrFrame now a =
     (case graphicsDevice a of
        None \<Rightarrow> Inr a
      | Some d \<Rightarrow>
          (let a1 = (cancel_hanging a)\<lparr>inFrameUpdate := True\<rparr>;
               ms = frame_ms (time a1) timestamp now;
               dt = frame_dt (maxDeltaTime a1) (timeScale a1) (time a1) timestamp now;
               a2 = request_next (a1\<lparr>time := current_time timestamp now\<rparr>)
           in if contextLost d then Inr a2
              else seq [ ok (fillFrameStatsBasic dt ms),
                         fire (AppEv ''frameupdate''),
                         ok (xr_step xrFrame),
                         (\<lambda>a. if skip_update xrFrame a then Inr a else frame_body dt a),
                         ok (\<lambda>a. a\<lparr>inFrameUpdate := False\<rparr>),
                         (\<lambda>a. if destroyRequested a then destroy a else Inr a) ] a2))"

subsection \<open>\<open>init\<close> and \<open>start\<close>\<close>








section \<open>The material handler of \<open>framework/handlers/material.js\<close>\<close>

subsection \<open>Values\<close>

text \<open>A JavaScript value that may be \<open>undefined\<close> or \<open>null\<close>. Textures are objects compared
  by identity: a built-in texture is identified by its name, any other by a number.\<close>

datatype 'a js = Undefined | Null | Val 'a

datatype texture = BuiltIn string | Texture nat

text \<open>What the material data holds for a parameter: an asset id or a path.\<close>

datatype ident = Id nat | Path string

definition truthy :: "texture js \<Rightarrow> bool" where
  "truthy v = (case v of Val t \<Rightarrow> True | _ \<Rightarrow> False)"

definition truthy_ident :: "ident js \<Rightarrow> bool" where
  "truthy_ident v =
     (case v of Val (Id n) \<Rightarrow> n \<noteq> 0 | Val (Path p) \<Rightarrow> p \<noteq> [] | _ \<Rightarrow> False)"

text \<open>Reading an array at an index: \<open>undefined\<close> beyond its end.\<close>

definition elem_at :: "texture js list \<Rightarrow> nat \<Rightarrow> texture js" where
  "elem_at xs i = (if i < length xs then xs ! i else Undefined)"

text \<open>\<open>x === y\<close> between a data value (a number or a string, when defined) and a texture:
  equal only when both are \<open>undefined\<close> or both are \<open>null\<close>.\<close>

definition strict_eq :: "ident js \<Rightarrow> texture js \<Rightarrow> bool" where
  "strict_eq x y = ((x = Undefined \<and> y = Undefined) \<or> (x = Null \<and> y = Null))"

definition PLACEHOLDER_MAP :: "(string \<times> string) list" where
  "PLACEHOLDER_MAP =
     [ (''aoMap'', ''white''),
       (''aoDetailMap'', ''white''),
       (''diffuseMap'', ''gray''),
       (''diffuseDetailMap'', ''gray''),
       (''specularMap'', ''gray''),
       (''specularityFactorMap'', ''white''),
       (''metalnessMap'', ''black''),
       (''glossMap'', ''gray''),
       (''sheenMap'', ''black''),
       (''sheenGlossMap'', ''gray''),
       (''clearCoatMap'', ''black''),
       (''clearCoatGlossMap'', ''gray''),
       (''clearCoatNormalMap'', ''normal''),
       (''refractionMap'', ''white''),
       (''emissiveMap'', ''gray''),
       (''normalMap'', ''normal''),
       (''normalDetailMap'', ''normal''),
       (''heightMap'', ''gray''),
       (''opacityMap'', ''gray''),
       (''sphereMap'', ''gray''),
       (''lightMap'', ''white''),
       (''thicknessMap'', ''black''),
       (''iridescenceMap'', ''black''),
       (''iridescenceThicknessMap'', ''black''),
       (''envAtlas'', ''black''),
       (''anisotropyMap'', ''black'') ]"

subsection \<open>State\<close>

text \<open>
  An asset of the registry, with its \<open>resources\<close> array; \<open>asset.resource\<close> is the first
  entry. The classes \<open>Asset\<close>, \<open>AssetRegistry\<close> and \<open>AssetReference\<close> are not among the
  sources; they are modelled as far as the handler uses them.
\<close>

record asset =
  asset_id :: nat
  asset_url :: string
  resources :: "texture js list"
  loaded :: bool

definition resource_of :: "asset \<Rightarrow> texture js" where
  "resource_of x = elem_at (resources x) 0"

text \<open>
  Modelled from the spec: the \<open>AssetReference\<close> of \<open>framework/asset/asset-reference.js\<close>,
  a dependency slot addressed by an id or by a path; its \<open>asset\<close> is the asset the
  registry holds for that identifier, if any. The reference delivers the registry's
  events for its asset by calling the handlers below with the parameter name, the
  material asset and the asset of the event.
\<close>

record assetReference =
  ref_id :: "ident js"
  ref_url :: "ident js"

definition ref_asset :: "asset list \<Rightarrow> assetReference \<Rightarrow> asset option" where
  "ref_asset reg r =
     (case ref_id r of
        Val (Id n) \<Rightarrow> find (\<lambda>x. asset_id x = n) reg
      | _ \<Rightarrow> (case ref_url r of
                Val (Path u) \<Rightarrow> find (\<lambda>x. asset_url x = u) reg
              | _ \<Rightarrow> None))"

record materialData =
  mappingFormat_path :: bool
  validated :: bool
  params :: "string \<Rightarrow> ident js"
  prefilteredCubeMap128 :: "ident js"

text \<open>The material: its texture and cubemap properties by name, its prefiltered
  cubemaps, its asset references by parameter name, and the number of calls of
  \<open>material.update()\<close>.\<close>

record material =
  props :: "string \<Rightarrow> texture js"
  prefilteredCubemaps :: "texture js list"
  assetReferences :: "string \<Rightarrow> assetReference option"
  updates :: nat

text \<open>
  The material asset (\<open>data\<close> and \<open>resource\<close>) with the collaborators of the handler: the
  registry, the asset ids passed to \<open>assets.load\<close> in order, the number of calls of
  \<open>parser.initialize\<close>, and \<open>getAbsoluteUrl\<close> of the material asset.
\<close>

record resolver =
  data :: materialData
  resource :: "material option"
  registry :: "asset list"
  loads :: "nat list"
  initializes :: nat
  getAbsoluteUrl :: "ident \<Rightarrow> ident"

subsection \<open>Assignments\<close>

definition with_material :: "(material \<Rightarrow> material) \<Rightarrow> resolver \<Rightarrow> error + resolver" where
  "with_material f w =
     (case resource w of None \<Rightarrow> Inl TypeError | Some m \<Rightarrow> Inr (w\<lparr>resource := Some (f m)\<rparr>))"

definition assignTexture :: "string \<Rightarrow> texture js \<Rightarrow> resolver \<Rightarrow> error + resolver" where
  "assignTexture parameterName tex = with_material (\<lambda>m. m\<lparr>props := (props m)(parameterName := tex)\<rparr>)"

text \<open>
  Modelled from the spec: \<open>getBuiltInTexture\<close> of \<open>platform/graphics/built-in-textures.js\<close>
  gives the one built-in texture of a name; for a parameter without an entry in the map
  the result is taken as \<open>undefined\<close>.
\<close>

definition getPlaceholderTexture :: "string \<Rightarrow> texture js" where
  "getPlaceholderTexture parameterName =
     (case map_of PLACEHOLDER_MAP parameterName of
        None \<Rightarrow> Undefined
      | Some placeholder \<Rightarrow> Val (BuiltIn placeholder))"

definition assignPlaceholderTexture :: "string \<Rightarrow> resolver \<Rightarrow> error + resolver" where
  "assignPlaceholderTexture parameterName =
     assignTexture parameterName (getPlaceholderTexture parameterName)"

definition material_update :: "resolver \<Rightarrow> error + resolver" where
  "material_update = with_material (\<lambda>m. m\<lparr>updates := Suc (updates m)\<rparr>)"

text \<open>Modelled from the spec: \<open>parser.initialize\<close> of the absent
  \<open>JsonStandardMaterialParser\<close>, the re-initialisation pass over the material; only its
  invocation is recorded.\<close>

definition parser_initialize :: "resolver \<Rightarrow> resolver" where
  "parser_initialize w = w\<lparr>initializes := Suc (initializes w)\<rparr>"

definition assets_load :: "asset \<Rightarrow> resolver \<Rightarrow> resolver" where
  "assets_load x w = w\<lparr>loads := loads w @ [asset_id x]\<rparr>"

definition assignCubemap :: "string \<Rightarrow> texture js list \<Rightarrow> resolver \<Rightarrow> error + resolver" where
  "assignCubemap parameterName textures =
     with_material (\<lambda>m.
       (let m1 = m\<lparr>props := (props m)(parameterName := elem_at textures 0)\<rparr>;
            prefiltered = drop 1 textures
        in if parameterName = ''cubeMap''
           then (if list_all truthy prefiltered then m1\<lparr>prefilteredCubemaps := prefiltered\<rparr>
                 else if truthy (elem_at prefiltered 0)
                      then m1\<lparr>props := (props m1)(''envAtlas'' := elem_at prefiltered 0)\<rparr>
                      else m1)
           else m1))"

subsection \<open>Event handlers\<close>

definition onTextureLoad :: "string \<Rightarrow> asset \<Rightarrow> resolver \<Rightarrow> error + resolver" where
  "onTextureLoad parameterName textureAsset w =
     (case assignTexture parameterName (resource_of textureAsset) w of
        Inl e \<Rightarrow> Inl e
      | Inr w1 \<Rightarrow> material_update w1)"

definition onTextureAdd :: "string \<Rightarrow> asset \<Rightarrow> resolver \<Rightarrow> error + resolver" where
  "onTextureAdd parameterName textureAsset w = Inr (assets_load textureAsset w)"

definition onTextureRemoveOrUnload :: "string \<Rightarrow> asset \<Rightarrow> resolver \<Rightarrow> error + resolver" where
  "onTextureRemoveOrUnload parameterName textureAsset w =
     (case resource w of
        None \<Rightarrow> Inr w
      | Some m \<Rightarrow>
          if props m parameterName = resource_of textureAsset
          then (case assignPlaceholderTexture parameterName w of
                  Inl e \<Rightarrow> Inl e
                | Inr w1 \<Rightarrow> material_update w1)
          else Inr w)"

definition onCubemapLoad :: "string \<Rightarrow> asset \<Rightarrow> resolver \<Rightarrow> error + resolver" where
  "onCubemapLoad parameterName cubemapAsset w =
     (case assignCubemap parameterName (resources cubemapAsset) w of
        Inl e \<Rightarrow> Inl e
      | Inr w1 \<Rightarrow> Inr (parser_initialize w1))"

definition onCubemapAdd :: "string \<Rightarrow> asset \<Rightarrow> resolver \<Rightarrow> error + resolver" where
  "onCubemapAdd parameterName cubemapAsset w = Inr (assets_load cubemapAsset w)"

definition onCubemapRemoveOrUnload :: "string \<Rightarrow> asset \<Rightarrow> resolver \<Rightarrow> error + resolver" where
  "onCubemapRemoveOrUnload parameterName cubemapAsset w =
     (if strict_eq (prefilteredCubeMap128 (data w)) (elem_at (resources cubemapAsset) 1)
      then (case assignCubemap parameterName [Null, Null, Null, Null, Null, Null, Null] w of
              Inl e \<Rightarrow> Inl e
            | Inr w1 \<Rightarrow> material_update w1)
      else Inr w)"

subsection \<open>\<open>_bindAndAssignAssets\<close>\<close>

definition set_reference :: "string \<Rightarrow> assetReference \<Rightarrow> material \<Rightarrow> material" where
  "set_reference name r m = m\<lparr>assetReferences := (assetReferences m)(name := Some r)\<rparr>"

text \<open>The body of the loop over the texture parameters, for one parameter name.\<close>

definition bind_texture :: "string \<Rightarrow> resolver \<Rightarrow> error + resolver" where
  "bind_texture name w =
     (case resource w of
        None \<Rightarrow> Inl TypeError
      | Some material \<Rightarrow>
          (let assetReference = assetReferences material name;
               dataAssetId = params (data w) name;
               materialTexture = props material name;
               isPlaceHolderTexture = (materialTexture = getPlaceholderTexture name);
               dataValidated = validated (data w)
           in if truthy_ident dataAssetId \<and>
                 (\<not> truthy materialTexture \<or> \<not> dataValidated \<or> isPlaceHolderTexture)
              then
                (let r0 = (case assetReference of
                             None \<Rightarrow> \<lparr>ref_id = Null, ref_url = Null\<rparr>
                           | Some r \<Rightarrow> r);
                     r1 = (case dataAssetId of
                             Val i \<Rightarrow> if mappingFormat_path (data w)
                                      then r0\<lparr>ref_url := Val (getAbsoluteUrl w i)\<rparr>
                                      else r0\<lparr>ref_id := dataAssetId\<rparr>
                           | _ \<Rightarrow> r0);
                     w1 = w\<lparr>resource := Some (set_reference name r1 material)\<rparr>
                 in case ref_asset (registry w1) r1 of
                      None \<Rightarrow> Inr w1
                    | Some x \<Rightarrow>
                        (case (if truthy (resource_of x)
                               then assignTexture name (resource_of x) w1
                               else assignPlaceholderTexture name w1) of
                           Inl e \<Rightarrow> Inl e
                         | Inr w2 \<Rightarrow> Inr (assets_load x w2)))
              else
                (case assetReference of
                   None \<Rightarrow> Inr w
                 | Some r \<Rightarrow>
                     Inr (w\<lparr>resource := Some (set_reference name
                            (if mappingFormat_path (data w) then r\<lparr>ref_url := Null\<rparr>
                             else r\<lparr>ref_id := Null\<rparr>) material)\<rparr>))))"

text \<open>The body of the loop over the cubemap parameters, for one parameter name.\<close>

definition bind_cubemap :: "string \<Rightarrow> resolver \<Rightarrow> error + resolver" where
  "bind_cubemap name w =
     (case resource w of
        None \<Rightarrow> Inl TypeError
      | Some material \<Rightarrow>
          (let assetReference = assetReferences material name
           in if truthy_ident (params (data w) name) \<and>
                 \<not> truthy_ident (prefilteredCubeMap128 (data w))
              then
                (let r0 = (case assetReference of
                             None \<Rightarrow> \<lparr>ref_id = Null, ref_url = Null\<rparr>
                           | Some r \<Rightarrow> r);
                     r1 = (if mappingFormat_path (data w)
                           then r0\<lparr>ref_url := params (data w) name\<rparr>
                           else r0\<lparr>ref_id := params (data w) name\<rparr>);
                     w1 = w\<lparr>resource := Some (set_reference name r1 material)\<rparr>
                 in case ref_asset (registry w1) r1 of
                      None \<Rightarrow> Inr w1
                    | Some x \<Rightarrow>
                        (case (if loaded x then assignCubemap name (resources x) w1 else Inr w1) of
                           Inl e \<Rightarrow> Inl e
                         | Inr w2 \<Rightarrow> Inr (assets_load x w2)))
              else Inr w))"

fun for_each :: "(string \<Rightarrow> resolver \<Rightarrow> error + resolver) \<Rightarrow> string list \<Rightarrow> resolver \<Rightarrow> error + resolver" where
  "for_each f [] w = Inr w"
| "for_each f (name # names) w =
     (case f name w of Inl e \<Rightarrow> Inl e | Inr w1 \<Rightarrow> for_each f names w1)"

text \<open>
  \<open>_bindAndAssignAssets\<close>, over the parameter lists \<open>standardMaterialTextureParameters\<close>
  and \<open>standardMaterialCubemapParameters\<close>, which are not among the sources and are
  taken as arguments. The data is taken as \<open>parser.migrate\<close> returns it.
\<close>

definition bindAndAssignAssets :: "string list \<Rightarrow> string list \<Rightarrow> resolver \<Rightarrow> error + resolver" where
  "bindAndAssignAssets TEXTURES CUBEMAPS w =
     (case for_each bind_texture TEXTURES w of
        Inl e \<Rightarrow> Inl e
      | Inr w1 \<Rightarrow>
          (case for_each bind_cubemap CUBEMAPS w1 of
             Inl e \<Rightarrow> Inl e
           | Inr w2 \<Rightarrow> Inr (parser_initialize w2)))"

section \<open>Auxiliary notions for the proofs\<close>

subsection \<open>The clock over a sequence of ticks\<close>

text \<open>The frame deltas of successive ticks, each given by its timestamp argument and the
  wall-clock reading at that tick; the stored time starts at \<open>prev\<close>.\<close>

fun deltas :: "real \<Rightarrow> real \<Rightarrow> real \<Rightarrow> (real option \<times> real) list \<Rightarrow> real list" where
  "deltas maxDelta scale prev [] = []"
| "deltas maxDelta scale prev ((timestamp, now) # rest) =
     frame_dt maxDelta scale prev timestamp now
       # deltas maxDelta scale (current_time timestamp now) rest"

subsection \<open>The parts of a tick\<close>

definition begin_frame :: "real option \<Rightarrow> real \<Rightarrow> app \<Rightarrow> app" where
  "begin_frame timestamp now a =
     request_next (((cancel_hanging a)\<lparr>inFrameUpdate := True\<rparr>)\<lparr>time := current_time timestamp now\<rparr>)"

definition frame_mid :: "bool option \<Rightarrow> real \<Rightarrow> app \<Rightarrow> error + app" where
  "frame_mid xrFrame dt =
     seq [ fire (AppEv ''frameupdate''),
           ok (xr_step xrFrame),
           (\<lambda>a. if skip_update xrFrame a then Inr a else frame_body dt a) ]"

definition end_frame :: "app \<Rightarrow> error + app" where
  "end_frame a =
     (if destroyRequested a then destroy (a\<lparr>inFrameUpdate := False\<rparr>)
      else Inr (a\<lparr>inFrameUpdate := False\<rparr>))"

subsection \<open>What a step inside a frame may change\<close>

text \<open>Events that no step inside a frame produces: the teardown, the \<open>destroy\<close>
  notification, and cancelling or requesting a frame.\<close>

definition quiet_event :: "event \<Rightarrow> bool" where
  "quiet_event e =
     (case e of Teardown \<Rightarrow> False | Cancel s n \<Rightarrow> False | Request s n \<Rightarrow> False
      | Fire c \<Rightarrow> c \<noteq> AppEv ''destroy'' | _ \<Rightarrow> True)"

definition plain_event :: "event \<Rightarrow> bool" where
  "plain_event e = (quiet_event e \<and> (case e of Fire c \<Rightarrow> False | _ \<Rightarrow> True))"

definition core ::
  "app \<Rightarrow> device option \<times> bool \<times> bool \<times> bool \<times> bool \<times> (real \<times> real \<times> real \<times> real \<times> real)
     \<times> (nat option \<times> bool option \<times> (source \<times> nat) list \<times> nat \<times> bool \<times> bool)
     \<times> (chan \<Rightarrow> action list)" where
  "core a = (graphicsDevice a, systems a, loader a, tick_fn a, inFrameUpdate a,
     (time a, timeScale a, maxDeltaTime a, stats_dt a, stats_ms a),
     (frameRequestId a, xr a, host_pending a, host_counter a, host_browser a, host_worker a),
     listeners a)"

definition frame_rel :: "app \<Rightarrow> app \<Rightarrow> bool" where
  "frame_rel a b \<longleftrightarrow>
     core b = core a \<and>
     (\<exists>tr. trace b = trace a @ tr \<and> list_all quiet_event tr \<and>
        (destroyRequested b \<longleftrightarrow>
           destroyRequested a \<or> (\<exists>c. Fire c \<in> set tr \<and> CallDestroy \<in> set (listeners a c))))"

definition in_frame :: "app \<Rightarrow> bool" where
  "in_frame a \<longleftrightarrow> inFrameUpdate a \<and> systems a \<and> graphicsDevice a \<noteq> None"

definition frame_step :: "(app \<Rightarrow> error + app) \<Rightarrow> bool" where
  "frame_step f \<longleftrightarrow> (\<forall>a. in_frame a \<longrightarrow> (\<exists>b. f a = Inr b \<and> frame_rel a b))"

text \<open>Events of the frame-request bookkeeping.\<close>

definition is_cancel :: "event \<Rightarrow> bool" where
  "is_cancel e = (case e of Cancel s n \<Rightarrow> True | _ \<Rightarrow> False)"

definition is_request :: "event \<Rightarrow> bool" where
  "is_request e = (case e of Request s n \<Rightarrow> True | _ \<Rightarrow> False)"

definition sched_event :: "event \<Rightarrow> bool" where
  "sched_event e = (is_cancel e \<or> is_request e)"

text \<open>The source on which the tick requests the next frame.\<close>

definition frame_source :: "app \<Rightarrow> source" where
  "frame_source a = (if xr a = Some True then XrSession else Window)"

subsection \<open>Input devices\<close>

text \<open>The input devices that \<open>inputUpdate\<close> updates, in its order.\<close>

definition input_events :: "app \<Rightarrow> event list" where
  "input_events a =
     (if controller a then [InputUpdate ''controller''] else []) @
     (case mouse a of None \<Rightarrow> [] | Some m \<Rightarrow> [InputUpdate ''mouse'']) @
     (if keyboard a then [InputUpdate ''keyboard''] else []) @
     (if gamepads a then [InputUpdate ''gamepads''] else [])"

subsection \<open>Frame requests over several ticks\<close>

text \<open>At most one frame request is outstanding, and it is the one whose id the
  application holds.\<close>

definition single_flight :: "app \<Rightarrow> bool" where
  "single_flight a \<longleftrightarrow>
     host_pending a = [] \<or>
     (\<exists>s n. host_pending a = [(s, n)] \<and> frameRequestId a = Some n \<and> n \<noteq> 0 \<and>
            (s = XrSession \<longrightarrow> xr a = Some True))"

definition has_frame_source :: "app \<Rightarrow> bool" where
  "has_frame_source a = (xr a = Some True \<or> host_browser a \<or> host_worker a)"

subsection \<open>The destroy sequence\<close>

text \<open>The state that the destroy sequence leaves when it completes: the \<open>destroy\<close>
  notification with its listeners called, the release, and the request whose id the
  application holds canceled.\<close>

definition torn_down :: "app \<Rightarrow> app" where
  "torn_down a =
     (let a1 = emit (Fire (AppEv ''destroy'')) a;
          a2 = released (a1\<lparr>renderNextFrame :=
                  renderNextFrame a1 \<or> RequestRender \<in> set (listeners a (AppEv ''destroy''))\<rparr>)
      in case frameRequestId a2 of
           None \<Rightarrow> a2
         | Some n \<Rightarrow> if n = 0 then a2 else (cancel_request Window n a2)\<lparr>frameRequestId := None\<rparr>)"

text \<open>The two conditions under which the destroy sequence at the end of a tick completes:
  the host defines \<open>window\<close>, or the tick requests no frame, so that \<open>cancelTick\<close> does not
  throw; and no listener of the \<open>destroy\<close> notification calls \<open>destroy\<close> again.\<close>

definition window_or_no_request :: "app \<Rightarrow> bool" where
  "window_or_no_request a \<longleftrightarrow> host_browser a \<or> \<not> has_frame_source a"

definition destroy_not_reentered :: "app \<Rightarrow> bool" where
  "destroy_not_reentered a \<longleftrightarrow> CallDestroy \<notin> set (listeners a (AppEv ''destroy''))"




subsection \<open>Before \<open>init\<close>\<close>


subsection \<open>What binding one parameter leaves alone\<close>

text \<open>Between two states of the resolver, the material exists in both, the property
  and the reference of one parameter name, the data, the registry and the counts of
  \<open>material.update()\<close> and \<open>parser.initialize\<close> are the same, and the load requests
  were only added to.\<close>

definition unchanged_at :: "string \<Rightarrow> resolver \<Rightarrow> resolver \<Rightarrow> bool" where
  "unchanged_at name w w' \<longleftrightarrow>
     (\<exists>m m'. resource w = Some m \<and> resource w' = Some m' \<and>
        props m' name = props m name \<and>
        assetReferences m' name = assetReferences m name \<and>
        updates m' = updates m) \<and>
     data w' = data w \<and> registry w' = registry w \<and> initializes w' = initializes w \<and>
     (\<exists>more. loads w' = loads w @ more)"

section \<open>Sample applications\<close>


definition sample_device :: device where
  "sample_device = \<lparr>contextLost = False, vramAccessors = True\<rparr>"


text \<open>A new application in a browser, release build, after \<open>init\<close> with the sample options.\<close>

definition sample_app :: app where
  "sample_app =
     (new_app True False False)
       \<lparr> graphicsDevice := Some sample_device,
         tick_fn := True,
         system_ids := [''script''],
         mouse := Some \<lparr>buttons = (True, False, False), lastbuttons = (False, False, False)\<rparr>,
         keyboard := True \<rparr>"

text \<open>The same application after its graphics device has lost its context.\<close>

definition lost_app :: app where
  "lost_app = sample_app\<lparr>graphicsDevice := Some \<lparr>contextLost = True, vramAccessors = True\<rparr>\<rparr>"

text \<open>The same application with a script that calls \<open>app.destroy()\<close> in its update.\<close>

definition destroying_app :: app where
  "destroying_app =
     sample_app\<lparr>listeners := (\<lambda>c. if c = SysEv ''update'' then [CallDestroy] else [])\<rparr>"

section \<open>Sample materials\<close>

text \<open>A texture asset with id 7 that is registered and not loaded, and the same asset
  once loaded.\<close>

definition texture_asset :: asset where
  "texture_asset = \<lparr>asset_id = 7, asset_url = ''bricks.png'', resources = [], loaded = False\<rparr>"

definition texture_asset_loaded :: asset where
  "texture_asset_loaded = texture_asset\<lparr>resources := [Val (Texture 70)], loaded := True\<rparr>"

text \<open>A new material whose data binds \<open>diffuseMap\<close> to asset id 7, with that asset in the
  registry; and the same with an empty registry.\<close>

definition sample_material :: material where
  "sample_material =
     \<lparr>props = (\<lambda>n. Null), prefilteredCubemaps = [], assetReferences = (\<lambda>n. None), updates = 0\<rparr>"

definition sample_resolver :: resolver where
  "sample_resolver =
     \<lparr> data = \<lparr> mappingFormat_path = False, validated = True,
                params = (\<lambda>n. if n = ''diffuseMap'' then Val (Id 7) else Undefined),
                prefilteredCubeMap128 = Undefined \<rparr>,
       resource = Some sample_material,
       registry = [texture_asset],
       loads = [],
       initializes = 0,
       getAbsoluteUrl = (\<lambda>i. i) \<rparr>"

definition unregistered_resolver :: resolver where
  "unregistered_resolver = sample_resolver\<lparr>registry := []\<rparr>"

text \<open>A material whose \<open>diffuseMap\<close> holds another texture while its validated data
  names asset id 7.\<close>

definition rebound_resolver :: resolver where
  "rebound_resolver =
     sample_resolver\<lparr>resource := Some (sample_material\<lparr>props := (\<lambda>n. if n = ''diffuseMap'' then Val (Texture 5) else Null)\<rparr>)\<rparr>"

text \<open>A cubemap asset without prefiltered textures, and a material whose \<open>cubeMap\<close> holds
  its texture.\<close>

definition cubemap_asset :: asset where
  "cubemap_asset = \<lparr>asset_id = 9, asset_url = ''sky.dds'', resources = [Val (Texture 90)], loaded = True\<rparr>"

definition cubemap_resolver :: resolver where
  "cubemap_resolver =
     \<lparr> data = \<lparr> mappingFormat_path = False, validated = True,
                params = (\<lambda>n. if n = ''cubeMap'' then Val (Id 9) else Undefined),
                prefilteredCubeMap128 = Undefined \<rparr>,
       resource = Some (sample_material\<lparr>props := (\<lambda>n. if n = ''cubeMap'' then Val (Texture 90) else Null)\<rparr>),
       registry = [cubemap_asset],
       loads = [],
       initializes = 0,
       getAbsoluteUrl = (\<lambda>i. i) \<rparr>"

text \<open>A loaded asset whose resource is the texture that the rebound material holds.\<close>

definition other_asset :: asset where
  "other_asset = \<lparr>asset_id = 8, asset_url = ''wood.png'', resources = [Val (Texture 5)], loaded = True\<rparr>"

section \<open>Steps inside a frame\<close>

lemma emit_fields [simp]:
  "trace (emit e a) = trace a @ [e]"
  "graphicsDevice (emit e a) = graphicsDevice a"
  "inFrameUpdate (emit e a) = inFrameUpdate a"
  "destroyRequested (emit e a) = destroyRequested a"
  "listeners (emit e a) = listeners a"
  "systems (emit e a) = systems a"
  by (simp_all add: emit_def)

lemma actions_in_frame:
  "inFrameUpdate a \<Longrightarrow>
   seq (map run_action xs) a =
     Inr (a\<lparr>destroyRequested := destroyRequested a \<or> CallDestroy \<in> set xs,
            renderNextFrame := renderNextFrame a \<or> RequestRender \<in> set xs\<rparr>)"
proof (induction xs arbitrary: a)
  case Nil
  then show ?case by simp
next
  case (Cons x xs)
  show ?case
  proof (cases x)
    case CallDestroy
    with Cons show ?thesis by (simp add: destroy_def)
  next
    case RequestRender
    with Cons show ?thesis by simp
  qed
qed

lemma frame_rel_refl: "frame_rel a a"
  by (simp add: frame_rel_def)

lemma frame_rel_trans:
  assumes "frame_rel a b" "frame_rel b c"
  shows "frame_rel a c"
proof -
  from assms(1) obtain t1 where 1: "core b = core a" "trace b = trace a @ t1" "list_all quiet_event t1"
    "destroyRequested b \<longleftrightarrow> destroyRequested a \<or> (\<exists>c. Fire c \<in> set t1 \<and> CallDestroy \<in> set (listeners a c))"
    unfolding frame_rel_def by blast
  from assms(2) obtain t2 where 2: "core c = core b" "trace c = trace b @ t2" "list_all quiet_event t2"
    "destroyRequested c \<longleftrightarrow> destroyRequested b \<or> (\<exists>c. Fire c \<in> set t2 \<and> CallDestroy \<in> set (listeners b c))"
    unfolding frame_rel_def by blast
  have l: "listeners b = listeners a" using 1(1) by (simp add: core_def)
  have "trace c = trace a @ (t1 @ t2)" using 1 2 by simp
  moreover have "list_all quiet_event (t1 @ t2)" using 1 2 by simp
  moreover have "destroyRequested c \<longleftrightarrow>
     destroyRequested a \<or> (\<exists>c. Fire c \<in> set (t1 @ t2) \<and> CallDestroy \<in> set (listeners a c))"
    using 1(4) 2(4) l by auto
  moreover have "core c = core a" using 1 2 by simp
  ultimately show ?thesis unfolding frame_rel_def by blast
qed

lemma frame_rel_in_frame: "frame_rel a b \<Longrightarrow> in_frame a \<Longrightarrow> in_frame b"
  by (simp add: frame_rel_def core_def in_frame_def)

lemma frame_step_seq: "(\<forall>f \<in> set fs. frame_step f) \<Longrightarrow> frame_step (seq fs)"
proof (induction fs)
  case Nil
  show ?case by (simp add: frame_step_def frame_rel_refl)
next
  case (Cons f fs)
  then have f: "frame_step f" and fs: "frame_step (seq fs)" by simp_all
  show ?case unfolding frame_step_def
  proof (intro allI impI)
    fix a assume a: "in_frame a"
    from f a obtain b where b: "f a = Inr b" "frame_rel a b" unfolding frame_step_def by blast
    then have "in_frame b" using a frame_rel_in_frame by blast
    with fs obtain c where c: "seq fs b = Inr c" "frame_rel b c" unfolding frame_step_def by blast
    show "\<exists>b. seq (f # fs) a = Inr b \<and> frame_rel a b"
      using b c frame_rel_trans by auto
  qed
qed

lemma frame_step_fire: "c \<noteq> AppEv ''destroy'' \<Longrightarrow> frame_step (fire c)"
  unfolding frame_step_def in_frame_def
  by (simp add: fire_def actions_in_frame frame_rel_def core_def emit_def quiet_event_def)

lemma frame_step_sysfire: "frame_step (sysfire n)"
  unfolding frame_step_def in_frame_def
  by (simp add: sysfire_def fire_def actions_in_frame frame_rel_def core_def emit_def quiet_event_def)

lemma frame_step_emit: "plain_event e \<Longrightarrow> frame_step (ok (emit e))"
  unfolding frame_step_def in_frame_def
  by (cases e) (auto simp add: plain_event_def ok_def frame_rel_def core_def emit_def)

lemma frame_step_device: "plain_event e \<Longrightarrow> frame_step (device_call e)"
  unfolding frame_step_def in_frame_def
  by (cases e) (auto simp add: plain_event_def device_call_def frame_rel_def core_def emit_def)

lemma frame_step_if:
  "frame_step f \<Longrightarrow> frame_step g \<Longrightarrow> frame_step (\<lambda>a. if p a then f a else g a)"
  by (simp add: frame_step_def)

lemma frame_step_id: "frame_step Inr"
  by (simp add: frame_step_def frame_rel_refl)

lemma frame_step_same:
  "(\<And>a. core (f a) = core a \<and> trace (f a) = trace a \<and> destroyRequested (f a) = destroyRequested a)
   \<Longrightarrow> frame_step (ok f)"
  unfolding frame_step_def by (simp add: ok_def frame_rel_def)

lemma frame_rel_inputUpdate: "frame_rel a (inputUpdate dt a)"
  by (auto simp add: inputUpdate_def Let_def frame_rel_def core_def emit_def quiet_event_def
      split: option.splits)

lemma frame_step_inputUpdate: "frame_step (ok (inputUpdate dt))"
  by (simp add: frame_step_def ok_def frame_rel_inputUpdate)

lemma frame_step_update: "frame_step (update dt)"
  unfolding update_def
  apply (rule frame_step_seq)
  apply (simp add: frame_step_sysfire frame_step_fire frame_step_inputUpdate)
  apply (intro conjI)
    apply (rule frame_step_same, simp add: core_def)
   apply (rule frame_step_device; simp add: plain_event_def quiet_event_def)
  apply (simp add: frame_step_def frame_step_sysfire [unfolded frame_step_def])
  done

lemma frame_step_render: "frame_step render"
  unfolding render_def
  apply (rule frame_step_seq)
  apply (simp add: frame_step_fire)
  apply (intro conjI)
       apply (rule frame_step_emit; simp add: plain_event_def quiet_event_def)
      apply (rule frame_step_device; simp add: plain_event_def quiet_event_def)
     apply (rule frame_step_emit; simp add: plain_event_def quiet_event_def)
    apply (simp add: frame_step_def ok_def frame_rel_def core_def emit_def quiet_event_def)
   apply (rule frame_step_emit; simp add: plain_event_def quiet_event_def)
  apply (rule frame_step_device; simp add: plain_event_def quiet_event_def)
  done

lemma frame_step_frame_body: "frame_step (frame_body dt)"
  unfolding frame_body_def
  apply (rule frame_step_seq)
  apply (simp add: frame_step_fire frame_step_update)
  apply (rule frame_step_if)
   apply (rule frame_step_seq)
   apply (simp add: frame_step_render)
   apply (rule frame_step_same, simp add: core_def)
  apply (rule frame_step_id)
  done

lemma frame_step_mid: "frame_step (frame_mid xrFrame dt)"
  unfolding frame_mid_def
  apply (rule frame_step_seq)
  apply (simp add: frame_step_fire)
  apply (intro conjI)
   apply (simp add: frame_step_def ok_def xr_step_def frame_rel_def core_def emit_def quiet_event_def)
  apply (rule frame_step_if)
   apply (rule frame_step_id)
  apply (rule frame_step_frame_body)
  done

section \<open>The tick as a whole\<close>

lemma cancel_hanging_fields [simp]:
  "time (cancel_hanging a) = time a"
  "timeScale (cancel_hanging a) = timeScale a"
  "maxDeltaTime (cancel_hanging a) = maxDeltaTime a"
  "graphicsDevice (cancel_hanging a) = graphicsDevice a"
  "systems (cancel_hanging a) = systems a"
  "loader (cancel_hanging a) = loader a"
  "tick_fn (cancel_hanging a) = tick_fn a"
  "listeners (cancel_hanging a) = listeners a"
  "destroyRequested (cancel_hanging a) = destroyRequested a"
  "xr (cancel_hanging a) = xr a"
  "host_browser (cancel_hanging a) = host_browser a"
  "host_worker (cancel_hanging a) = host_worker a"
  "host_counter (cancel_hanging a) = host_counter a"
  by (simp_all add: cancel_hanging_def cancel_request_def emit_def Let_def split: option.splits)

lemma request_next_fields [simp]:
  "time (request_next a) = time a"
  "timeScale (request_next a) = timeScale a"
  "maxDeltaTime (request_next a) = maxDeltaTime a"
  "graphicsDevice (request_next a) = graphicsDevice a"
  "systems (request_next a) = systems a"
  "loader (request_next a) = loader a"
  "tick_fn (request_next a) = tick_fn a"
  "inFrameUpdate (request_next a) = inFrameUpdate a"
  "listeners (request_next a) = listeners a"
  "destroyRequested (request_next a) = destroyRequested a"
  "xr (request_next a) = xr a"
  "host_browser (request_next a) = host_browser a"
  "host_worker (request_next a) = host_worker a"
  by (simp_all add: request_next_def request_frame_def emit_def Let_def)

lemma begin_frame_fields [simp]:
  "time (begin_frame ts now a) = current_time ts now"
  "timeScale (begin_frame ts now a) = timeScale a"
  "maxDeltaTime (begin_frame ts now a) = maxDeltaTime a"
  "graphicsDevice (begin_frame ts now a) = graphicsDevice a"
  "systems (begin_frame ts now a) = systems a"
  "loader (begin_frame ts now a) = loader a"
  "tick_fn (begin_frame ts now a) = tick_fn a"
  "inFrameUpdate (begin_frame ts now a) = True"
  "listeners (begin_frame ts now a) = listeners a"
  "destroyRequested (begin_frame ts now a) = destroyRequested a"
  "xr (begin_frame ts now a) = xr a"
  "host_browser (begin_frame ts now a) = host_browser a"
  "host_worker (begin_frame ts now a) = host_worker a"
  by (simp_all add: begin_frame_def)

lemma torn_down_fields [simp]:
  "time (torn_down a) = time a"
  "stats_dt (torn_down a) = stats_dt a"
  "graphicsDevice (torn_down a) = None"
  "inFrameUpdate (torn_down a) = inFrameUpdate a"
  "destroyRequested (torn_down a) = destroyRequested a"
  "tick_fn (torn_down a) = False"
  "systems (torn_down a) = False"
  by (simp_all add: torn_down_def released_def cancel_request_def emit_def Let_def
      split: option.splits)

lemma seq_append:
  "seq (fs @ gs) a = (case seq fs a of Inl e \<Rightarrow> Inl e | Inr b \<Rightarrow> seq gs b)"
  by (induction fs arbitrary: a) (auto split: sum.splits)

lemma seq_ok: "seq (ok g # fs) a = seq fs (g a)"
  by (simp add: ok_def)

lemma seq_end_frame:
  "seq [ok (\<lambda>a. a\<lparr>inFrameUpdate := False\<rparr>), (\<lambda>a. if destroyRequested a then destroy a else Inr a)] b
     = end_frame b"
  by (simp add: ok_def end_frame_def split: sum.splits)

lemma seq_mid_end:
  "seq [ fire (AppEv ''frameupdate''), ok (xr_step xrFrame),
         (\<lambda>a. if skip_update xrFrame a then Inr a else frame_body dt a),
         ok (\<lambda>a. a\<lparr>inFrameUpdate := False\<rparr>),
         (\<lambda>a. if destroyRequested a then destroy a else Inr a) ] s
     = (case frame_mid xrFrame dt s of Inl e \<Rightarrow> Inl e | Inr b \<Rightarrow> end_frame b)"
proof -
  have "seq ([ fire (AppEv ''frameupdate''), ok (xr_step xrFrame),
         (\<lambda>a. if skip_update xrFrame a then Inr a else frame_body dt a)] @
         [ok (\<lambda>a. a\<lparr>inFrameUpdate := False\<rparr>),
         (\<lambda>a. if destroyRequested a then destroy a else Inr a) ]) s
     = (case frame_mid xrFrame dt s of Inl e \<Rightarrow> Inl e | Inr b \<Rightarrow> end_frame b)"
    by (simp only: seq_append seq_end_frame frame_mid_def)
  then show ?thesis by simp
qed

text \<open>The state in which the notifications of a frame start: the frame begun and the
  basic statistics filled in.\<close>

lemma tick_unfold:
  assumes "graphicsDevice a = Some d"
  shows "tick timestamp xrFrame now a =
     (if contextLost d then Inr (begin_frame timestamp now a)
      else (case frame_mid xrFrame (frame_dt (maxDeltaTime a) (timeScale a) (time a) timestamp now)
                   (fillFrameStatsBasic
                      (frame_dt (maxDeltaTime a) (timeScale a) (time a) timestamp now)
                      (frame_ms (time a) timestamp now) (begin_frame timestamp now a)) of
              Inl e \<Rightarrow> Inl e
            | Inr b \<Rightarrow> end_frame b))"
  unfolding tick_def Let_def seq_ok seq_mid_end
  using assms by (simp add: begin_frame_def)

section \<open>The destroy sequence\<close>

lemma destroy_listeners_run:
  "CallDestroy \<notin> set xs \<Longrightarrow>
   seq (map destroy_listener xs) a =
     Inr (a\<lparr>renderNextFrame := renderNextFrame a \<or> RequestRender \<in> set xs\<rparr>)"
proof (induction xs arbitrary: a)
  case Nil
  then show ?case by simp
next
  case (Cons x xs)
  then show ?case by (cases x) simp_all
qed

lemma destroy_listeners_reenter:
  "\<not> inFrameUpdate a \<Longrightarrow> CallDestroy \<in> set xs \<Longrightarrow>
   seq (map destroy_listener xs) a = Inl RangeError"
proof (induction xs arbitrary: a)
  case Nil
  then show ?case by simp
next
  case (Cons x xs)
  then show ?case by (cases x) auto
qed

lemma released_fields [simp]:
  "frameRequestId (released a) = frameRequestId a"
  "host_browser (released a) = host_browser a"
  "time (released a) = time a"
  "stats_dt (released a) = stats_dt a"
  by (simp_all add: released_def emit_def)

text \<open>The destroy sequence completes when no listener of its notification calls
  \<open>destroy\<close>, the systems and the loader are in place, and either the host defines
  \<open>window\<close> or the application holds no request id.\<close>

lemma teardown_completes:
  assumes "destroy_not_reentered a" "systems a" "loader a"
    and "host_browser a \<or> frameRequestId a = None"
  shows "teardown a = Inr (torn_down a)"
proof -
  let ?a1 = "emit (Fire (AppEv ''destroy'')) a"
  let ?a2 = "?a1\<lparr>renderNextFrame :=
                  renderNextFrame ?a1 \<or> RequestRender \<in> set (listeners a (AppEv ''destroy''))\<rparr>"
  have 1: "fire_destroy a = Inr ?a2"
    using assms(1) unfolding fire_destroy_def destroy_not_reentered_def
    by (rule destroy_listeners_run)
  have 2: "release ?a2 = Inr (released ?a2)"
    using assms(2,3) by (simp add: release_def emit_def)
  have 3: "cancelTick (released ?a2) = Inr (torn_down a)"
    using assms(4)
    by (auto simp add: cancelTick_def torn_down_def emit_def Let_def split: option.splits)
  show ?thesis by (simp add: teardown_def 1 2 3)
qed

text \<open>Whenever the destroy sequence returns, outside of a frame, it has completed.\<close>

lemma teardown_returns:
  assumes "\<not> inFrameUpdate a" "teardown a = Inr b"
  shows "b = torn_down a"
proof -
  have nr: "CallDestroy \<notin> set (listeners a (AppEv ''destroy''))"
  proof
    assume "CallDestroy \<in> set (listeners a (AppEv ''destroy''))"
    moreover have "\<not> inFrameUpdate (emit (Fire (AppEv ''destroy'')) a)"
      using assms(1) by simp
    ultimately have "fire_destroy a = Inl RangeError"
      unfolding fire_destroy_def by (intro destroy_listeners_reenter) simp_all
    then show False using assms(2) by (simp add: teardown_def)
  qed
  let ?a1 = "emit (Fire (AppEv ''destroy'')) a"
  let ?a2 = "?a1\<lparr>renderNextFrame :=
                  renderNextFrame ?a1 \<or> RequestRender \<in> set (listeners a (AppEv ''destroy''))\<rparr>"
  have 1: "fire_destroy a = Inr ?a2"
    using nr unfolding fire_destroy_def by (rule destroy_listeners_run)
  from assms(2) 1 have 2: "seq [release, cancelTick] ?a2 = Inr b"
    by (simp add: teardown_def)
  then have 3: "release ?a2 = Inr (released ?a2)"
    by (auto simp add: release_def split: if_splits)
  with 2 have 4: "cancelTick (released ?a2) = Inr b"
    by (auto split: sum.splits)
  then show ?thesis
    by (auto simp add: cancelTick_def torn_down_def emit_def Let_def
        split: option.splits if_splits)
qed

text \<open>Whenever the destroy sequence completes, it leaves the clock as it is.\<close>

lemma seq_preserves:
  assumes "\<And>f x y. f \<in> set fs \<Longrightarrow> f x = Inr y \<Longrightarrow> g y = g x"
    and "seq fs a = Inr b"
  shows "g b = g a"
  using assms
proof (induction fs arbitrary: a)
  case Nil
  then show ?case by simp
next
  case (Cons f fs)
  from Cons.prems(2) obtain a' where a': "f a = Inr a'" "seq fs a' = Inr b"
    by (auto split: sum.splits)
  have "g a' = g a" using Cons.prems(1) [of f a a'] a'(1) by simp
  moreover have "g b = g a'"
    using Cons.IH [OF _ a'(2)] Cons.prems(1) by (meson list.set_intros(2))
  ultimately show ?case by simp
qed

lemma destroy_listener_clock:
  "destroy_listener x a = Inr b \<Longrightarrow> (time b, stats_dt b) = (time a, stats_dt a)"
  by (cases x) (auto split: if_splits)

lemma teardown_clock:
  assumes "teardown a = Inr b"
  shows "time b = time a" "stats_dt b = stats_dt a"
proof -
  from assms obtain a1 a2 where s:
    "fire_destroy a = Inr a1" "release a1 = Inr a2" "cancelTick a2 = Inr b"
    by (auto simp add: teardown_def split: sum.splits)
  have "(time a1, stats_dt a1) = (time (emit (Fire (AppEv ''destroy'')) a),
                                   stats_dt (emit (Fire (AppEv ''destroy'')) a))"
  proof (rule seq_preserves [where g = "\<lambda>x. (time x, stats_dt x)"])
    show "seq (map destroy_listener (listeners a (AppEv ''destroy'')))
            (emit (Fire (AppEv ''destroy'')) a) = Inr a1"
      using s(1) by (simp add: fire_destroy_def)
  next
    fix f x y
    assume "f \<in> set (map destroy_listener (listeners a (AppEv ''destroy'')))" "f x = Inr y"
    then show "(time y, stats_dt y) = (time x, stats_dt x)"
      using destroy_listener_clock by auto
  qed
  then have 1: "time a1 = time a" "stats_dt a1 = stats_dt a"
    by (simp_all add: emit_def)
  have 2: "time a2 = time a1" "stats_dt a2 = stats_dt a1"
    using s(2) by (auto simp add: release_def split: if_splits)
  have 3: "time b = time a2" "stats_dt b = stats_dt a2"
    using s(3)
    by (auto simp add: cancelTick_def cancel_request_def emit_def split: option.splits if_splits)
  show "time b = time a" "stats_dt b = stats_dt a"
    using 1 2 3 by simp_all
qed

section \<open>The result of a tick\<close>

lemma end_frame_unfold:
  assumes "in_frame b"
  shows "end_frame b =
     (if destroyRequested b then teardown (b\<lparr>inFrameUpdate := False\<rparr>)
      else Inr (b\<lparr>inFrameUpdate := False\<rparr>))"
  using assms by (auto simp add: end_frame_def destroy_def in_frame_def)

text \<open>Every tick that runs a frame runs the frame, and then either the destroy sequence
  or nothing more.\<close>

lemma tick_frame:
  assumes "graphicsDevice a = Some d" "\<not> contextLost d" "systems a"
  shows "\<exists>b. frame_rel (fillFrameStatsBasic
                      (frame_dt (maxDeltaTime a) (timeScale a) (time a) timestamp now)
                      (frame_ms (time a) timestamp now) (begin_frame timestamp now a)) b
            \<and> tick timestamp xrFrame now a =
                (if destroyRequested b then teardown (b\<lparr>inFrameUpdate := False\<rparr>)
                 else Inr (b\<lparr>inFrameUpdate := False\<rparr>))"
proof -
  let ?s = "fillFrameStatsBasic
                      (frame_dt (maxDeltaTime a) (timeScale a) (time a) timestamp now)
                      (frame_ms (time a) timestamp now) (begin_frame timestamp now a)"
  have s: "in_frame ?s"
    using assms by (simp add: in_frame_def fillFrameStatsBasic_def)
  then obtain b where b:
    "frame_mid xrFrame (frame_dt (maxDeltaTime a) (timeScale a) (time a) timestamp now) ?s = Inr b"
    "frame_rel ?s b"
    using frame_step_mid unfolding frame_step_def by blast
  have "in_frame b" using b(2) s by (rule frame_rel_in_frame)
  then have "end_frame b =
     (if destroyRequested b then teardown (b\<lparr>inFrameUpdate := False\<rparr>)
      else Inr (b\<lparr>inFrameUpdate := False\<rparr>))"
    by (rule end_frame_unfold)
  then show ?thesis using assms(1,2) b by (auto simp add: tick_unfold)
qed

lemma begin_frame_no_request:
  "\<not> has_frame_source a \<Longrightarrow> frameRequestId (begin_frame timestamp now a) = None"
  by (simp add: begin_frame_def request_next_def has_frame_source_def)

text \<open>The same when the destroy sequence completes.\<close>

lemma tick_result:
  assumes "graphicsDevice a = Some d" "\<not> contextLost d" "systems a" "loader a"
    and "window_or_no_request a" "destroy_not_reentered a"
  shows "\<exists>b. frame_rel (fillFrameStatsBasic
                      (frame_dt (maxDeltaTime a) (timeScale a) (time a) timestamp now)
                      (frame_ms (time a) timestamp now) (begin_frame timestamp now a)) b
            \<and> tick timestamp xrFrame now a =
                Inr (if destroyRequested b then torn_down (b\<lparr>inFrameUpdate := False\<rparr>)
                     else b\<lparr>inFrameUpdate := False\<rparr>)"
proof -
  let ?s = "fillFrameStatsBasic
                      (frame_dt (maxDeltaTime a) (timeScale a) (time a) timestamp now)
                      (frame_ms (time a) timestamp now) (begin_frame timestamp now a)"
  from tick_frame [OF assms(1,2,3), of timestamp now xrFrame]
  obtain b where b: "frame_rel ?s b"
    "tick timestamp xrFrame now a =
       (if destroyRequested b then teardown (b\<lparr>inFrameUpdate := False\<rparr>)
        else Inr (b\<lparr>inFrameUpdate := False\<rparr>))" by blast
  have c: "core b = core ?s" using b(1) by (simp add: frame_rel_def)
  have "host_browser a \<or> frameRequestId (begin_frame timestamp now a) = None"
    using assms(5) by (auto simp add: window_or_no_request_def begin_frame_no_request)
  then have w: "host_browser (b\<lparr>inFrameUpdate := False\<rparr>) \<or>
                frameRequestId (b\<lparr>inFrameUpdate := False\<rparr>) = None"
    using c by (simp add: core_def fillFrameStatsBasic_def)
  have l: "destroy_not_reentered (b\<lparr>inFrameUpdate := False\<rparr>)"
    "systems (b\<lparr>inFrameUpdate := False\<rparr>)" "loader (b\<lparr>inFrameUpdate := False\<rparr>)"
    using c assms(3,4,6)
    by (simp_all add: core_def fillFrameStatsBasic_def destroy_not_reentered_def)
  have "teardown (b\<lparr>inFrameUpdate := False\<rparr>) = Inr (torn_down (b\<lparr>inFrameUpdate := False\<rparr>))"
    using l w by (rule teardown_completes)
  then show ?thesis using b by auto
qed

text \<open>The clock of every tick that returns, and the return of the tick when the destroy
  sequence completes.\<close>

lemma tick_clock:
  assumes "graphicsDevice a = Some d" "systems a"
    and "tick timestamp xrFrame now a = Inr a'"
  shows "time a' = current_time timestamp now"
    and "\<not> contextLost d \<Longrightarrow>
           stats_dt a' = frame_dt (maxDeltaTime a) (timeScale a) (time a) timestamp now"
proof -
  have "time a' = current_time timestamp now \<and>
        (\<not> contextLost d \<longrightarrow>
           stats_dt a' = frame_dt (maxDeltaTime a) (timeScale a) (time a) timestamp now)"
  proof (cases "contextLost d")
    case True
    then show ?thesis using assms by (auto simp add: tick_unfold)
  next
    case False
    from tick_frame [OF assms(1) False assms(2), of timestamp now xrFrame]
    obtain b where b: "frame_rel (fillFrameStatsBasic
                      (frame_dt (maxDeltaTime a) (timeScale a) (time a) timestamp now)
                      (frame_ms (time a) timestamp now) (begin_frame timestamp now a)) b"
      "tick timestamp xrFrame now a =
         (if destroyRequested b then teardown (b\<lparr>inFrameUpdate := False\<rparr>)
          else Inr (b\<lparr>inFrameUpdate := False\<rparr>))" by blast
    have tb: "time b = current_time timestamp now"
      "stats_dt b = frame_dt (maxDeltaTime a) (timeScale a) (time a) timestamp now"
      using b(1) by (simp_all add: frame_rel_def core_def fillFrameStatsBasic_def)
    show ?thesis
    proof (cases "destroyRequested b")
      case True
      then have "teardown (b\<lparr>inFrameUpdate := False\<rparr>) = Inr a'"
        using b(2) assms(3) by simp
      from teardown_clock [OF this] show ?thesis using tb by simp
    next
      case False
      then have "a' = b\<lparr>inFrameUpdate := False\<rparr>" using b(2) assms(3) by simp
      then show ?thesis using tb by simp
    qed
  qed
  then show "time a' = current_time timestamp now"
    and "\<not> contextLost d \<Longrightarrow>
           stats_dt a' = frame_dt (maxDeltaTime a) (timeScale a) (time a) timestamp now"
    by simp_all
qed

lemma tick_returns:
  assumes "graphicsDevice a = Some d" "systems a" "loader a"
    and "window_or_no_request a" "destroy_not_reentered a"
  shows "\<exists>a'. tick timestamp xrFrame now a = Inr a'"
proof (cases "contextLost d")
  case True
  then show ?thesis using assms(1) by (simp add: tick_unfold)
next
  case False
  from tick_result [OF assms(1) False assms(2-5), of timestamp now xrFrame]
  show ?thesis by blast
qed

section \<open>The clock\<close>

lemma frame_dt_first: "0 \<le> maxDelta \<Longrightarrow> frame_dt maxDelta scale 0 timestamp now = 0"
  by (simp add: frame_dt_def frame_ms_def js_or_def clamp_def)

lemma frame_dt_bounds:
  assumes "0 \<le> maxDelta" "0 \<le> scale"
  shows "0 \<le> frame_dt maxDelta scale prev timestamp now"
    and "frame_dt maxDelta scale prev timestamp now \<le> maxDelta * scale"
  using assms by (auto simp add: frame_dt_def clamp_def mult_right_mono)

lemma deltas_bounds:
  assumes "0 \<le> maxDelta" "0 \<le> scale"
  shows "\<forall>dt \<in> set (deltas maxDelta scale prev inputs). 0 \<le> dt \<and> dt \<le> maxDelta * scale"
  using assms
  by (induction inputs arbitrary: prev) (auto simp add: frame_dt_bounds)

lemma frame_dt_not_later:
  assumes "0 \<le> maxDelta" "t \<noteq> 0" "t \<le> prev"
  shows "frame_dt maxDelta scale prev (Some t) now = 0"
  using assms by (auto simp add: frame_dt_def frame_ms_def current_time_def js_or_def clamp_def)

lemma frame_dt_no_clock:
  "t \<noteq> 0 \<Longrightarrow> frame_dt maxDelta scale prev (Some t) now = frame_dt maxDelta scale prev (Some t) now'"
  by (simp add: frame_dt_def frame_ms_def current_time_def js_or_def)

lemma deltas_from_zero:
  "deltas (1 / 10) 1 prev [(Some 0, n1), (Some 16, n2), (Some 33, n3), (Some 5000, n4)]
     = [frame_dt (1 / 10) 1 prev (Some 0) n1,
        (if n1 = 0 then 0 else clamp ((16 - n1) / 1000) 0 (1 / 10)), 17 / 1000, 1 / 10]"
  by (simp add: frame_dt_def frame_ms_def current_time_def js_or_def clamp_def)

lemma second_delta_never_16ms:
  "deltas (1 / 10) 1 prev [(Some 0, n1), (Some 16, n2), (Some 33, n3), (Some 5000, n4)] ! 1 \<noteq> 16 / 1000"
  by (simp add: frame_dt_def frame_ms_def current_time_def js_or_def clamp_def)

lemma deltas_shifted:
  "deltas (1 / 10) 1 0 [(Some 1, n1), (Some 17, n2), (Some 34, n3), (Some 5001, n4)]
     = [0, 16 / 1000, 17 / 1000, 1 / 10]"
  by (simp add: frame_dt_def frame_ms_def current_time_def js_or_def clamp_def)

section \<open>Sample applications, evaluated\<close>


lemmas eval_defs =
  tick_def Let_def ok_def fire_def sysfire_def device_call_def emit_def update_def render_def
  frame_body_def inputUpdate_def update_mouse_def cancel_hanging_def request_next_def
  request_frame_def cancel_request_def cancelTick_def fire_destroy_def release_def
  released_def teardown_def destroy_def
  fillFrameStatsBasic_def skip_update_def xr_step_def
  sample_app_def sample_device_def new_app_def

lemma sample_app_fields:
  "graphicsDevice sample_app = Some sample_device" "\<not> contextLost sample_device"
  "systems sample_app" "loader sample_app"
  "window_or_no_request sample_app" "destroy_not_reentered sample_app"
  by (simp_all add: sample_app_def sample_device_def new_app_def window_or_no_request_def
      destroy_not_reentered_def)

lemma destroying_app_fields:
  "graphicsDevice destroying_app = Some sample_device"
  "systems destroying_app" "loader destroying_app"
  "window_or_no_request destroying_app" "destroy_not_reentered destroying_app"
  by (simp_all add: destroying_app_def sample_app_def sample_device_def new_app_def
      window_or_no_request_def destroy_not_reentered_def)

section \<open>Traces of the frame-request bookkeeping and of the teardown\<close>

lemma begin_frame_sched:
  "\<exists>cancels. trace (begin_frame timestamp now a) =
             trace a @ cancels @
               (if has_frame_source a then [Request (frame_source a) (Suc (host_counter a))] else [])
           \<and> list_all is_cancel cancels"
  by (simp add: begin_frame_def request_next_def request_frame_def cancel_hanging_def
      cancel_request_def emit_def Let_def is_cancel_def has_frame_source_def frame_source_def
      split: option.splits)

lemma begin_frame_trace:
  "\<exists>pre. trace (begin_frame timestamp now a) = trace a @ pre \<and> list_all sched_event pre"
proof -
  obtain cancels where c: "trace (begin_frame timestamp now a) =
             trace a @ cancels @
               (if has_frame_source a then [Request (frame_source a) (Suc (host_counter a))] else [])"
    "list_all is_cancel cancels"
    using begin_frame_sched by blast
  have "list_all sched_event cancels"
    using c(2) by (induction cancels) (simp_all add: sched_event_def)
  then have "list_all sched_event (cancels @
               (if has_frame_source a then [Request (frame_source a) (Suc (host_counter a))] else []))"
    by (simp add: sched_event_def is_request_def)
  then show ?thesis using c(1) by blast
qed

lemma torn_down_trace:
  "\<exists>post. trace (torn_down a) = trace a @ [Fire (AppEv ''destroy''), Teardown] @ post
          \<and> list_all is_cancel post"
  by (simp add: torn_down_def released_def cancel_request_def emit_def is_cancel_def Let_def
      split: option.splits)

lemma count_sched: "list_all sched_event xs \<Longrightarrow> count_list xs Teardown = 0"
  by (induction xs) (auto simp add: sched_event_def is_cancel_def is_request_def)

lemma count_cancel: "list_all is_cancel xs \<Longrightarrow> count_list xs Teardown = 0"
  by (induction xs) (auto simp add: is_cancel_def)

lemma count_quiet: "list_all quiet_event xs \<Longrightarrow> count_list xs Teardown = 0"
  by (induction xs) (auto simp add: quiet_event_def)

lemma destroy_in_frame: "inFrameUpdate b \<Longrightarrow> destroy b = Inr (b\<lparr>destroyRequested := True\<rparr>)"
  by (simp add: destroy_def)

lemma tick_destroyed: "graphicsDevice a = None \<Longrightarrow> tick timestamp xrFrame now a = Inr a"
  by (simp add: tick_def)

lemma torn_down_pending:
  assumes "single_flight a"
  shows "host_pending (torn_down a) = []"
proof (cases "host_pending a = []")
  case True
  then show ?thesis
    by (simp add: torn_down_def released_def cancel_request_def emit_def Let_def
          split: option.splits)
next
  case False
  then obtain s n where p: "host_pending a = [(s, n)]" "frameRequestId a = Some n" "n \<noteq> 0"
    "s = XrSession \<longrightarrow> xr a = Some True"
    using assms unfolding single_flight_def by blast
  show ?thesis
  proof (cases s)
    case Window
    with p show ?thesis
      by (simp add: torn_down_def released_def cancel_request_def emit_def Let_def
          split: option.splits)
  next
    case XrSession
    with p show ?thesis
      by (simp add: torn_down_def released_def cancel_request_def emit_def Let_def)
  qed
qed

text \<open>The shape of every tick that runs a frame and returns.\<close>

lemma tick_shape_returned:
  assumes "graphicsDevice a = Some d" "\<not> contextLost d" "systems a"
    and "tick timestamp xrFrame now a = Inr a'"
  shows "\<exists>body post.
           \<not> inFrameUpdate a' \<and>
           list_all quiet_event body \<and> list_all is_cancel post \<and>
           (destroyRequested a' \<longleftrightarrow>
              destroyRequested a \<or> (\<exists>c. Fire c \<in> set body \<and> CallDestroy \<in> set (listeners a c))) \<and>
           (if destroyRequested a'
            then graphicsDevice a' = None \<and>
                 (single_flight (begin_frame timestamp now a) \<longrightarrow> host_pending a' = []) \<and>
                 trace a' = trace (begin_frame timestamp now a) @ body
                              @ [Fire (AppEv ''destroy''), Teardown] @ post
            else core a' = core ((begin_frame timestamp now a)
                                  \<lparr>inFrameUpdate := False,
                                   stats_dt := frame_dt (maxDeltaTime a) (timeScale a) (time a) timestamp now,
                                   stats_ms := frame_ms (time a) timestamp now\<rparr>) \<and>
                 trace a' = trace (begin_frame timestamp now a) @ body)"
proof -
  let ?s = "fillFrameStatsBasic
              (frame_dt (maxDeltaTime a) (timeScale a) (time a) timestamp now)
              (frame_ms (time a) timestamp now) (begin_frame timestamp now a)"
  from tick_frame [OF assms(1,2,3), of timestamp now xrFrame]
  obtain b where b: "frame_rel ?s b"
    "tick timestamp xrFrame now a =
       (if destroyRequested b then teardown (b\<lparr>inFrameUpdate := False\<rparr>)
        else Inr (b\<lparr>inFrameUpdate := False\<rparr>))" by blast
  from b(1) obtain body where body: "core b = core ?s" "trace b = trace ?s @ body"
    "list_all quiet_event body"
    "destroyRequested b \<longleftrightarrow>
       destroyRequested ?s \<or> (\<exists>c. Fire c \<in> set body \<and> CallDestroy \<in> set (listeners ?s c))"
    unfolding frame_rel_def by blast
  have s: "trace ?s = trace (begin_frame timestamp now a)" "listeners ?s = listeners a"
    "destroyRequested ?s = destroyRequested a"
    by (simp_all add: fillFrameStatsBasic_def)
  have req: "destroyRequested b \<longleftrightarrow>
     destroyRequested a \<or> (\<exists>c. Fire c \<in> set body \<and> CallDestroy \<in> set (listeners a c))"
    using body(4) s by simp
  show ?thesis
  proof (cases "destroyRequested b")
    case True
    then have "teardown (b\<lparr>inFrameUpdate := False\<rparr>) = Inr a'"
      using b(2) assms(4) by simp
    then have a': "a' = torn_down (b\<lparr>inFrameUpdate := False\<rparr>)"
      by (intro teardown_returns) simp_all
    obtain post where post:
      "trace (torn_down (b\<lparr>inFrameUpdate := False\<rparr>)) =
         trace (b\<lparr>inFrameUpdate := False\<rparr>) @ [Fire (AppEv ''destroy''), Teardown] @ post"
      "list_all is_cancel post"
      using torn_down_trace by blast
    have sf: "single_flight (begin_frame timestamp now a) \<Longrightarrow>
                single_flight (b\<lparr>inFrameUpdate := False\<rparr>)"
      using body(1)
      by (simp add: single_flight_def core_def fillFrameStatsBasic_def)
    have "\<not> inFrameUpdate a'" using a' by simp
    moreover have "destroyRequested a'" using True a' by simp
    moreover have "graphicsDevice a' = None" using a' by simp
    moreover have "single_flight (begin_frame timestamp now a) \<longrightarrow> host_pending a' = []"
      using sf torn_down_pending a' by blast
    moreover have "trace a' = trace (begin_frame timestamp now a) @ body
                      @ [Fire (AppEv ''destroy''), Teardown] @ post"
      using post(1) body(2) s(1) a' by simp
    ultimately show ?thesis using body(3) post(2) req True
      by (intro exI [of _ body] exI [of _ post]) simp
  next
    case False
    then have a': "a' = b\<lparr>inFrameUpdate := False\<rparr>" using b(2) assms(4) by simp
    have "trace a' = trace (begin_frame timestamp now a) @ body"
      using body(2) s(1) a' by simp
    moreover have "core a' = core ((begin_frame timestamp now a)
                                  \<lparr>inFrameUpdate := False,
                                   stats_dt := frame_dt (maxDeltaTime a) (timeScale a) (time a) timestamp now,
                                   stats_ms := frame_ms (time a) timestamp now\<rparr>)"
      using body(1) a' by (simp add: core_def fillFrameStatsBasic_def)
    moreover have "list_all is_cancel []" by simp
    moreover have "\<not> inFrameUpdate a'" "\<not> destroyRequested a'" using a' False by simp_all
    ultimately show ?thesis using body(3) req False
      by (intro exI [of _ body] exI [of _ "[]"]) simp
  qed
qed

text \<open>The same for a tick whose destroy sequence completes.\<close>

lemma tick_shape:
  assumes "graphicsDevice a = Some d" "\<not> contextLost d" "systems a" "loader a"
    and "window_or_no_request a" "destroy_not_reentered a"
  shows "\<exists>a' body post.
           tick timestamp xrFrame now a = Inr a' \<and> \<not> inFrameUpdate a' \<and>
           list_all quiet_event body \<and> list_all is_cancel post \<and>
           (destroyRequested a' \<longleftrightarrow>
              destroyRequested a \<or> (\<exists>c. Fire c \<in> set body \<and> CallDestroy \<in> set (listeners a c))) \<and>
           (if destroyRequested a'
            then graphicsDevice a' = None \<and>
                 (single_flight (begin_frame timestamp now a) \<longrightarrow> host_pending a' = []) \<and>
                 trace a' = trace (begin_frame timestamp now a) @ body
                              @ [Fire (AppEv ''destroy''), Teardown] @ post
            else core a' = core ((begin_frame timestamp now a)
                                  \<lparr>inFrameUpdate := False,
                                   stats_dt := frame_dt (maxDeltaTime a) (timeScale a) (time a) timestamp now,
                                   stats_ms := frame_ms (time a) timestamp now\<rparr>) \<and>
                 trace a' = trace (begin_frame timestamp now a) @ body)"
proof -
  from tick_returns [OF assms(1,3,4,5,6), of timestamp xrFrame now]
  obtain a' where a': "tick timestamp xrFrame now a = Inr a'" by blast
  from tick_shape_returned [OF assms(1,2,3) a'] a' show ?thesis by blast
qed

section \<open>Deferred destroy\<close>

text \<open>
  Claim C1, evaluated. A script of the sample application calls \<open>destroy()\<close> in its
  update. The destroy sequence does not run after the tick has returned: it runs inside
  the invocation, as its last step, so that the application the tick returns is already
  destroyed, without graphics device and tick function, the teardown being among the
  events of that tick.
\<close>

theorem deferred_destroy_counterexample:
  "(case tick (Some 16) None 16 destroying_app of
      Inl e \<Rightarrow> False
    | Inr a' \<Rightarrow> graphicsDevice a' = None \<and> \<not> tick_fn a' \<and> Teardown \<in> set (trace a'))"
  by (simp add: eval_defs destroying_app_def)

text \<open>
  Claim C1, amended. A call of \<open>destroy()\<close> made while the in-frame flag is set only
  records the request: the result is the same state with \<open>_destroyRequested\<close> set. Take a
  tick that runs a frame (the graphics device is there, its context not lost, the systems
  and the loader in place), on a host that defines \<open>window\<close> or on which the tick
  requests no frame, of an application none of whose listeners of the \<open>destroy\<close>
  notification calls \<open>destroy\<close>. The events of the tick are the frame-request bookkeeping \<open>pre\<close>, then
  the frame \<open>body\<close> with all its notifications, in which no teardown happens, and then,
  exactly when a destroy was requested (before the tick, or by a listener that a
  notification of this frame called), one teardown. The teardown is the last step of that
  tick invocation, made after the in-frame flag is cleared and before the invocation
  returns; every later invocation of the tick function leaves the destroyed application
  as it is, so the teardown runs once.
\<close>

theorem deferred_destroy_runs_once_at_end_of_tick:
  assumes "graphicsDevice a = Some d" "\<not> contextLost d" "systems a" "loader a"
    and "window_or_no_request a" "destroy_not_reentered a"
  shows "(\<forall>b. inFrameUpdate b \<longrightarrow> destroy b = Inr (b\<lparr>destroyRequested := True\<rparr>)) \<and>
         (\<exists>a' pre body post.
            tick timestamp xrFrame now a = Inr a' \<and> \<not> inFrameUpdate a' \<and>
            list_all sched_event pre \<and> list_all quiet_event body \<and> list_all is_cancel post \<and>
            (destroyRequested a' \<longleftrightarrow>
               destroyRequested a \<or>
               (\<exists>c. Fire c \<in> set body \<and> CallDestroy \<in> set (listeners a c))) \<and>
            (if destroyRequested a'
             then graphicsDevice a' = None \<and>
                  trace a' = trace a @ pre @ body @ [Fire (AppEv ''destroy''), Teardown] @ post \<and>
                  count_list (pre @ body @ [Fire (AppEv ''destroy''), Teardown] @ post) Teardown = 1 \<and>
                  tick timestamp' xrFrame' now' a' = Inr a'
             else graphicsDevice a' = Some d \<and> trace a' = trace a @ pre @ body \<and>
                  count_list (pre @ body) Teardown = 0))"
proof -
  from tick_shape [OF assms, of timestamp xrFrame now]
  obtain a' body post where t:
    "tick timestamp xrFrame now a = Inr a'" "\<not> inFrameUpdate a'"
    "list_all quiet_event body" "list_all is_cancel post"
    "destroyRequested a' \<longleftrightarrow>
       destroyRequested a \<or> (\<exists>c. Fire c \<in> set body \<and> CallDestroy \<in> set (listeners a c))"
    "destroyRequested a' \<Longrightarrow> graphicsDevice a' = None \<and>
          trace a' = trace (begin_frame timestamp now a) @ body
                       @ [Fire (AppEv ''destroy''), Teardown] @ post"
    "\<not> destroyRequested a' \<Longrightarrow>
       core a' = core ((begin_frame timestamp now a)
                        \<lparr>inFrameUpdate := False,
                         stats_dt := frame_dt (maxDeltaTime a) (timeScale a) (time a) timestamp now,
                         stats_ms := frame_ms (time a) timestamp now\<rparr>) \<and>
       trace a' = trace (begin_frame timestamp now a) @ body"
    by (metis (no_types, lifting))
  obtain pre where pre: "trace (begin_frame timestamp now a) = trace a @ pre"
    "list_all sched_event pre"
    using begin_frame_trace by blast
  have c: "count_list pre Teardown = 0" "count_list body Teardown = 0"
    "count_list post Teardown = 0"
    using pre(2) t(3,4) by (simp_all add: count_sched count_quiet count_cancel)
  have one: "count_list (pre @ body @ [Fire (AppEv ''destroy''), Teardown] @ post) Teardown = 1"
    using c by simp
  have none: "count_list (pre @ body) Teardown = 0"
    using c by simp
  have again: "graphicsDevice a' = None \<Longrightarrow> tick timestamp' xrFrame' now' a' = Inr a'"
    by (rule tick_destroyed)
  have dev: "\<not> destroyRequested a' \<Longrightarrow> graphicsDevice a' = Some d"
    using t(7) assms(1) by (simp add: core_def)
  have "\<exists>a' pre body post.
            tick timestamp xrFrame now a = Inr a' \<and> \<not> inFrameUpdate a' \<and>
            list_all sched_event pre \<and> list_all quiet_event body \<and> list_all is_cancel post \<and>
            (destroyRequested a' \<longleftrightarrow>
               destroyRequested a \<or>
               (\<exists>c. Fire c \<in> set body \<and> CallDestroy \<in> set (listeners a c))) \<and>
            (if destroyRequested a'
             then graphicsDevice a' = None \<and>
                  trace a' = trace a @ pre @ body @ [Fire (AppEv ''destroy''), Teardown] @ post \<and>
                  count_list (pre @ body @ [Fire (AppEv ''destroy''), Teardown] @ post) Teardown = 1 \<and>
                  tick timestamp' xrFrame' now' a' = Inr a'
             else graphicsDevice a' = Some d \<and> trace a' = trace a @ pre @ body \<and>
                  count_list (pre @ body) Teardown = 0)"
    apply (rule exI [of _ a'], rule exI [of _ pre], rule exI [of _ body], rule exI [of _ post])
    using t(1-5) t(6,7) pre one none again dev by (cases "destroyRequested a'") simp_all
  then show ?thesis by (simp add: destroy_in_frame)
qed

theorem deferred_destroy_witness:
  "graphicsDevice destroying_app = Some sample_device \<and> \<not> contextLost sample_device \<and>
   systems destroying_app \<and> loader destroying_app \<and>
   window_or_no_request destroying_app \<and> destroy_not_reentered destroying_app \<and>
   (case tick (Some 16) None 16 destroying_app of
      Inl e \<Rightarrow> False
    | Inr a' \<Rightarrow> graphicsDevice a' = None \<and> \<not> inFrameUpdate a' \<and>
               count_list (trace a') Teardown = 1 \<and>
               drop 18 (trace a') = [Fire (AppEv ''destroy''), Teardown, Cancel Window 1])"
  using deferred_destroy_runs_once_at_end_of_tick
          [OF destroying_app_fields(1) sample_app_fields(2) destroying_app_fields(2,3,4,5),
           of "Some 16" None 16 "Some 32" None 32]
  by (simp add: eval_defs destroying_app_def window_or_no_request_def
      destroy_not_reentered_def)

section \<open>A tick on a lost context\<close>

text \<open>
  Claim C2, evaluated where it fails. The graphics device has lost its context. The tick
  returns at the check of \<open>contextLost\<close>, before the line that clears \<open>_inFrameUpdate\<close>:
  when it has returned, the flag is still set, and a \<open>destroy()\<close> called then, outside
  of any frame, is only recorded and leaves the graphics device in place. A destroy that
  was already requested is not performed by such a tick either.
\<close>

theorem tick_on_lost_context_leaves_flag_set:
  "(case tick (Some 16) None 16 lost_app of
      Inl e \<Rightarrow> False
    | Inr a' \<Rightarrow> inFrameUpdate a' \<and>
               (case destroy a' of
                  Inl e \<Rightarrow> False
                | Inr a'' \<Rightarrow> destroyRequested a'' \<and> graphicsDevice a'' \<noteq> None \<and>
                            trace a'' = [Request Window 1])) \<and>
   (case tick (Some 16) None 16 (lost_app\<lparr>destroyRequested := True\<rparr>) of
      Inl e \<Rightarrow> False
    | Inr a' \<Rightarrow> inFrameUpdate a' \<and> destroyRequested a' \<and> graphicsDevice a' \<noteq> None)"
  by (simp add: eval_defs lost_app_def)

text \<open>On a context that is not lost the flag is cleared and a requested destroy is
  performed when the tick returns, where the destroy sequence completes.\<close>

lemma tick_clears_flag:
  assumes "graphicsDevice a = Some d" "\<not> contextLost d" "systems a" "loader a"
    and "window_or_no_request a" "destroy_not_reentered a"
  shows "\<exists>a'. tick timestamp xrFrame now a = Inr a' \<and> \<not> inFrameUpdate a' \<and>
           (destroyRequested a' \<longrightarrow> graphicsDevice a' = None)"
  using tick_shape [OF assms, of timestamp xrFrame now] by (metis (no_types, lifting))

section \<open>The frame delta\<close>

text \<open>
  Claim C3, at the sequence it names. Timestamp 0 is falsy, so the first tick takes the
  wall clock, here 1000, as its time; the second delta is measured from that reading
  and is 0, not 0.016. A zero timestamp after a stored time of 5 is not earlier than
  it for the code: the wall clock replaces it and the delta is the full 0.1. With a
  negative time scale the delta is negative.
\<close>

theorem clock_sequence_counterexample:
  "deltas (1 / 10) 1 0 [(Some 0, 1000), (Some 16, 1016), (Some 33, 1033), (Some 5000, 6000)]
     = [0, 0, 17 / 1000, 1 / 10] \<and>
   deltas (1 / 10) 1 0 [(Some 0, 1000), (Some 16, 1016), (Some 33, 1033), (Some 5000, 6000)]
     \<noteq> [0, 16 / 1000, 17 / 1000, 1 / 10] \<and>
   frame_dt (1 / 10) 1 5 (Some 0) 1000 = 1 / 10 \<and>
   frame_dt (1 / 10) (- 1) 1000 (Some 1050) 0 = - (1 / 20)"
  by (simp add: frame_dt_def frame_ms_def current_time_def js_or_def clamp_def)

text \<open>
  Claim C3, amended. With a time scale and a maximal delta that are not negative, every
  delta of every sequence of ticks lies between 0 and \<open>maxDeltaTime * timeScale\<close>; a
  timestamp that is not zero and not later than the stored time gives delta 0; for a
  timestamp that is not zero the delta does not depend on the wall clock, so it is a
  function of the stored time, the timestamp, the time scale and the maximal delta; the
  sequence 1, 17, 34, 5001 on a new clock gives 0, 0.016, 0.017, 0.1; and the sequence
  0, 16, 33, 5000 gives 0, then a delta measured from the wall-clock reading \<open>n1\<close> of the
  first tick, which is never 0.016, then 0.017 and 0.1.
\<close>

theorem clock_delta_amended:
  assumes "0 \<le> maxDelta" "0 \<le> scale"
  shows "(\<forall>dt \<in> set (deltas maxDelta scale prev inputs). 0 \<le> dt \<and> dt \<le> maxDelta * scale) \<and>
         (\<forall>t now. t \<noteq> 0 \<and> t \<le> prev \<longrightarrow> frame_dt maxDelta scale prev (Some t) now = 0) \<and>
         (\<forall>t now now'. t \<noteq> 0 \<longrightarrow>
            frame_dt maxDelta scale prev (Some t) now = frame_dt maxDelta scale prev (Some t) now') \<and>
         deltas (1 / 10) 1 0 [(Some 1, n1), (Some 17, n2), (Some 34, n3), (Some 5001, n4)]
           = [0, 16 / 1000, 17 / 1000, 1 / 10] \<and>
         deltas (1 / 10) 1 0 [(Some 0, n1), (Some 16, n2), (Some 33, n3), (Some 5000, n4)]
           = [0, (if n1 = 0 then 0 else clamp ((16 - n1) / 1000) 0 (1 / 10)), 17 / 1000, 1 / 10] \<and>
         (if n1 = 0 then 0 else clamp ((16 - n1) / 1000) 0 (1 / 10)) \<noteq> 16 / 1000"
proof -
  have "frame_dt (1 / 10) 1 0 (Some 0) n1 = 0"
    by (simp add: frame_dt_first)
  then have "deltas (1 / 10) 1 0 [(Some 0, n1), (Some 16, n2), (Some 33, n3), (Some 5000, n4)]
           = [0, (if n1 = 0 then 0 else clamp ((16 - n1) / 1000) 0 (1 / 10)), 17 / 1000, 1 / 10]"
    using deltas_from_zero [of 0 n1 n2 n3 n4] by simp
  moreover have "\<forall>t now. t \<noteq> 0 \<and> t \<le> prev \<longrightarrow> frame_dt maxDelta scale prev (Some t) now = 0"
    using assms(1) frame_dt_not_later by blast
  moreover have "\<forall>t now now'. t \<noteq> 0 \<longrightarrow>
            frame_dt maxDelta scale prev (Some t) now = frame_dt maxDelta scale prev (Some t) now'"
    using frame_dt_no_clock by blast
  moreover have "(if n1 = 0 then 0 else clamp ((16 - n1) / 1000) 0 (1 / 10)) \<noteq> 16 / 1000"
    by (simp add: clamp_def)
  ultimately show ?thesis
    using deltas_bounds [OF assms, of prev inputs] deltas_shifted [of n1 n2 n3 n4] by blast
qed

theorem clock_delta_amended_witness:
  "(0::real) \<le> 1 / 10 \<and> (0::real) \<le> 2 \<and>
   list_all (\<lambda>dt. 0 \<le> dt \<and> dt \<le> 1 / 10 * 2)
     (deltas (1 / 10) 2 0 [(Some 1, 7), (Some 17, 7), (Some 17, 7), (None, 40), (Some 5001, 7)]) \<and>
   frame_dt (1 / 10) 2 17 (Some 17) 7 = 0"
proof -
  have h: "(0::real) \<le> 1 / 10" "(0::real) \<le> 2" by simp_all
  show ?thesis
    using h clock_delta_amended [OF h, of 17
        "[(Some 1, 7), (Some 17, 7), (Some 17, 7), (None, 40), (Some 5001, 7)]" 0 0 0 0]
    by (simp add: frame_dt_def frame_ms_def current_time_def js_or_def clamp_def)
qed

section \<open>A missing or zero timestamp\<close>

text \<open>
  Claim C10, evaluated. The maximal delta of the sample application, which has not run
  a tick yet, is set to \<open>-1\<close>. Its first tick, called without timestamp at wall clock 5,
  takes 5 as its time, the elapsed interval is zero, and the delta of the frame is \<open>-1\<close>:
  the clamp returns its upper bound for every value that is not below it.
\<close>

theorem first_delta_counterexample:
  "time (sample_app\<lparr>maxDeltaTime := - 1\<rparr>) = 0 \<and>
   (case tick None None 5 (sample_app\<lparr>maxDeltaTime := - 1\<rparr>) of
      Inl e \<Rightarrow> False
    | Inr a' \<Rightarrow> time a' = 5 \<and> stats_dt a' = - 1) \<and>
   frame_ms 0 None 5 = 0 \<and>
   frame_dt (- 1) 1 0 None 5 = - 1"
  by (simp add: eval_defs frame_dt_def frame_ms_def current_time_def js_or_def clamp_def)

text \<open>
  Claim C10, amended. When the tick function of an application that has its graphics
  device and its systems is called without a timestamp or with timestamp 0, the time of
  the frame is the wall clock \<open>now\<close>: whenever the tick returns, \<open>now\<close> is what it has
  stored as the time, and the delta recorded for the frame, on a context that is not
  lost, is computed from it; and the tick returns when the loader is in place, the host
  defines \<open>window\<close> or the tick requests no frame, and no listener of the \<open>destroy\<close>
  notification calls \<open>destroy\<close>. The stored time of a new application is 0, and from a
  stored time of 0 the delta is 0 for every timestamp and every wall clock when the
  maximal delta is not negative.
\<close>

theorem falsy_timestamp_falls_back_to_wall_clock:
  assumes "graphicsDevice a = Some d" "systems a"
    and "timestamp = None \<or> timestamp = Some 0"
  shows "current_time timestamp now = now \<and>
         (\<forall>a'. tick timestamp xrFrame now a = Inr a' \<longrightarrow>
            time a' = now \<and>
            (\<not> contextLost d \<longrightarrow>
               stats_dt a' = frame_dt (maxDeltaTime a) (timeScale a) (time a) timestamp now)) \<and>
         (loader a \<and> window_or_no_request a \<and> destroy_not_reentered a \<longrightarrow>
            (\<exists>a'. tick timestamp xrFrame now a = Inr a')) \<and>
         time (new_app browser worker debug) = 0 \<and>
         (time a = 0 \<and> 0 \<le> maxDeltaTime a \<longrightarrow>
            (\<forall>ts n. frame_dt (maxDeltaTime a) (timeScale a) (time a) ts n = 0))"
proof -
  have ct: "current_time timestamp now = now"
    using assms(3) by (auto simp add: current_time_def js_or_def)
  have clock: "\<forall>a'. tick timestamp xrFrame now a = Inr a' \<longrightarrow>
            time a' = now \<and>
            (\<not> contextLost d \<longrightarrow>
               stats_dt a' = frame_dt (maxDeltaTime a) (timeScale a) (time a) timestamp now)"
    using tick_clock [OF assms(1,2)] ct by metis
  have returns: "loader a \<and> window_or_no_request a \<and> destroy_not_reentered a \<longrightarrow>
            (\<exists>a'. tick timestamp xrFrame now a = Inr a')"
    using tick_returns [OF assms(1,2)] by blast
  have "time (new_app browser worker debug) = 0" by (simp add: new_app_def)
  moreover have "time a = 0 \<and> 0 \<le> maxDeltaTime a \<longrightarrow>
            (\<forall>ts n. frame_dt (maxDeltaTime a) (timeScale a) (time a) ts n = 0)"
    by (simp add: frame_dt_first)
  ultimately show ?thesis using ct clock returns by blast
qed

theorem falsy_timestamp_witness:
  "graphicsDevice sample_app = Some sample_device \<and> systems sample_app \<and> loader sample_app \<and>
   window_or_no_request sample_app \<and> destroy_not_reentered sample_app \<and>
   time sample_app = 0 \<and> 0 \<le> maxDeltaTime sample_app \<and>
   (case tick None None 1234 sample_app of
      Inl e \<Rightarrow> False
    | Inr a' \<Rightarrow> time a' = 1234 \<and> stats_dt a' = 0)"
  using falsy_timestamp_falls_back_to_wall_clock
          [OF sample_app_fields(1,3), of None 1234 None True False False]
  by (simp add: eval_defs frame_dt_def frame_ms_def current_time_def js_or_def clamp_def
      window_or_no_request_def destroy_not_reentered_def has_frame_source_def)

section \<open>The order of the update phase\<close>

lemma fire_in_frame:
  "inFrameUpdate a \<Longrightarrow>
   fire c a =
     Inr (a\<lparr>trace := trace a @ [Fire c],
            destroyRequested := destroyRequested a \<or> CallDestroy \<in> set (listeners a c),
            renderNextFrame := renderNextFrame a \<or> RequestRender \<in> set (listeners a c)\<rparr>)"
  by (simp add: fire_def actions_in_frame emit_def)

lemma inputUpdate_trace: "trace (inputUpdate dt a) = trace a @ input_events a"
  by (simp add: inputUpdate_def input_events_def Let_def emit_def split: option.splits)

lemma inputUpdate_mouse: "mouse (inputUpdate dt a) = map_option update_mouse (mouse a)"
  by (simp add: inputUpdate_def Let_def emit_def split: option.splits)

lemma seq_single_ok: "seq [ok g] a = Inr (g a)"
  by (simp add: ok_def)

lemma update_last_step:
  "update dt a =
     (case seq [ ok (\<lambda>a. a\<lparr>frame := frame a + 1\<rparr>),
                 device_call DeviceUpdate,
                 (\<lambda>a. sysfire (if inTools a then ''toolsUpdate'' else ''update'') a),
                 sysfire ''animationUpdate'',
                 sysfire ''postUpdate'',
                 fire (AppEv ''update'') ] a of
        Inl e \<Rightarrow> Inl e
      | Inr a1 \<Rightarrow> Inr (inputUpdate dt a1))"
proof -
  have "update dt a =
     seq ([ ok (\<lambda>a. a\<lparr>frame := frame a + 1\<rparr>),
            device_call DeviceUpdate,
            (\<lambda>a. sysfire (if inTools a then ''toolsUpdate'' else ''update'') a),
            sysfire ''animationUpdate'',
            sysfire ''postUpdate'',
            fire (AppEv ''update'') ] @ [ok (inputUpdate dt)]) a"
    by (simp add: update_def)
  also have "\<dots> =
     (case seq [ ok (\<lambda>a. a\<lparr>frame := frame a + 1\<rparr>),
                 device_call DeviceUpdate,
                 (\<lambda>a. sysfire (if inTools a then ''toolsUpdate'' else ''update'') a),
                 sysfire ''animationUpdate'',
                 sysfire ''postUpdate'',
                 fire (AppEv ''update'') ] a of
        Inl e \<Rightarrow> Inl e
      | Inr a1 \<Rightarrow> seq [ok (inputUpdate dt)] a1)"
    by (simp only: seq_append)
  finally show ?thesis by (simp only: seq_single_ok)
qed

lemma update_notifications:
  assumes "inFrameUpdate a" "graphicsDevice a = Some d" "systems a"
  shows "\<exists>a1. seq [ ok (\<lambda>a. a\<lparr>frame := frame a + 1\<rparr>),
                 device_call DeviceUpdate,
                 (\<lambda>a. sysfire (if inTools a then ''toolsUpdate'' else ''update'') a),
                 sysfire ''animationUpdate'',
                 sysfire ''postUpdate'',
                 fire (AppEv ''update'') ] a = Inr a1 \<and>
           trace a1 = trace a @
             [ DeviceUpdate,
               Fire (SysEv (if inTools a then ''toolsUpdate'' else ''update'')),
               Fire (SysEv ''animationUpdate''),
               Fire (SysEv ''postUpdate''),
               Fire (AppEv ''update'') ] \<and>
           mouse a1 = mouse a \<and> controller a1 = controller a \<and>
           keyboard a1 = keyboard a \<and> gamepads a1 = gamepads a"
  using assms
  by (simp add: ok_def device_call_def sysfire_def fire_in_frame emit_def)

text \<open>
  Claim C5, evaluated: in a frame of the sample application the update phase calls the
  systems' \<open>update\<close>, \<open>animationUpdate\<close> and \<open>postUpdate\<close>, then fires the application's
  \<open>update\<close>, and updates the mouse and the keyboard after all of them, not before.
\<close>

theorem update_order_counterexample:
  "(case update (16 / 1000) (sample_app\<lparr>inFrameUpdate := True\<rparr>) of
      Inl e \<Rightarrow> []
    | Inr a' \<Rightarrow> trace a') =
     [ DeviceUpdate, Fire (SysEv ''update''), Fire (SysEv ''animationUpdate''),
       Fire (SysEv ''postUpdate''), Fire (AppEv ''update''),
       InputUpdate ''mouse'', InputUpdate ''keyboard'' ]"
  by (simp add: eval_defs)

text \<open>
  Claim C5, amended. In every frame the update phase runs in this fixed order: the
  update of the graphics device, the systems' \<open>update\<close> (\<open>toolsUpdate\<close> in tools), their
  \<open>animationUpdate\<close>, their \<open>postUpdate\<close>, the application's \<open>update\<close> notification, and
  last the update of the input devices (controller, mouse, keyboard, gamepads). So the
  simulation of a frame sees the last button states as the previous frame's input update
  left them, and the input update copies the current button states after post-update.
\<close>

theorem update_order_amended:
  assumes "inFrameUpdate a" "graphicsDevice a = Some d" "systems a"
  shows "\<exists>a1. update dt a = Inr (inputUpdate dt a1) \<and>
           trace a1 = trace a @
             [ DeviceUpdate,
               Fire (SysEv (if inTools a then ''toolsUpdate'' else ''update'')),
               Fire (SysEv ''animationUpdate''),
               Fire (SysEv ''postUpdate''),
               Fire (AppEv ''update'') ] \<and>
           trace (inputUpdate dt a1) = trace a1 @ input_events a \<and>
           mouse a1 = mouse a \<and>
           mouse (inputUpdate dt a1) = map_option update_mouse (mouse a)"
proof -
  from update_notifications [OF assms]
  obtain a1 where a1:
    "seq [ ok (\<lambda>a. a\<lparr>frame := frame a + 1\<rparr>),
           device_call DeviceUpdate,
           (\<lambda>a. sysfire (if inTools a then ''toolsUpdate'' else ''update'') a),
           sysfire ''animationUpdate'',
           sysfire ''postUpdate'',
           fire (AppEv ''update'') ] a = Inr a1"
    "trace a1 = trace a @
             [ DeviceUpdate,
               Fire (SysEv (if inTools a then ''toolsUpdate'' else ''update'')),
               Fire (SysEv ''animationUpdate''),
               Fire (SysEv ''postUpdate''),
               Fire (AppEv ''update'') ]"
    "mouse a1 = mouse a" "controller a1 = controller a"
    "keyboard a1 = keyboard a" "gamepads a1 = gamepads a"
    by blast
  have "update dt a = Inr (inputUpdate dt a1)"
    using a1(1) by (simp only: update_last_step sum.case)
  moreover have "input_events a1 = input_events a"
    using a1(3-6) by (simp add: input_events_def)
  ultimately show ?thesis
    using a1(2,3) by (auto simp add: inputUpdate_trace inputUpdate_mouse)
qed

theorem update_order_witness:
  "inFrameUpdate (sample_app\<lparr>inFrameUpdate := True\<rparr>) \<and>
   graphicsDevice (sample_app\<lparr>inFrameUpdate := True\<rparr>) = Some sample_device \<and>
   systems (sample_app\<lparr>inFrameUpdate := True\<rparr>) \<and>
   (case update (16 / 1000) (sample_app\<lparr>inFrameUpdate := True\<rparr>) of
      Inl e \<Rightarrow> False
    | Inr a' \<Rightarrow> last (trace a') = InputUpdate ''keyboard'' \<and>
               mouse a' = Some \<lparr>buttons = (True, False, False), lastbuttons = (True, False, False)\<rparr>)"
  using update_order_amended [of "sample_app\<lparr>inFrameUpdate := True\<rparr>" sample_device "16 / 1000"]
  by (simp add: eval_defs)

section \<open>Frame requests\<close>












section \<open>The order of the lifecycle operations\<close>














section \<open>The material handler\<close>

lemmas handler_defs =
  bindAndAssignAssets_def bind_texture_def bind_cubemap_def assignTexture_def
  assignPlaceholderTexture_def assignCubemap_def with_material_def material_update_def
  parser_initialize_def assets_load_def set_reference_def ref_asset_def resource_of_def
  elem_at_def truthy_def truthy_ident_def strict_eq_def getPlaceholderTexture_def
  PLACEHOLDER_MAP_def onTextureLoad_def onTextureRemoveOrUnload_def onCubemapLoad_def
  onCubemapRemoveOrUnload_def Let_def

lemmas sample_defs =
  sample_resolver_def sample_material_def texture_asset_def texture_asset_loaded_def
  unregistered_resolver_def rebound_resolver_def cubemap_asset_def cubemap_resolver_def

lemma placeholder_gray: "getPlaceholderTexture ''diffuseMap'' = Val (BuiltIn ''gray'')"
  by (simp add: getPlaceholderTexture_def PLACEHOLDER_MAP_def)

lemma unchanged_at_refl: "resource w = Some m \<Longrightarrow> unchanged_at name w w"
  by (simp add: unchanged_at_def)

lemma unchanged_at_trans: "unchanged_at name w w1 \<Longrightarrow> unchanged_at name w1 w2 \<Longrightarrow> unchanged_at name w w2"
  by (auto simp add: unchanged_at_def)

lemma bind_texture_other:
  assumes "resource w = Some m" "n \<noteq> name"
  shows "\<exists>w'. bind_texture n w = Inr w' \<and> unchanged_at name w w'"
  using assms
  by (auto simp add: bind_texture_def Let_def unchanged_at_def assignTexture_def
      assignPlaceholderTexture_def with_material_def assets_load_def set_reference_def
      split: option.splits js.splits)

lemma bind_cubemap_other:
  assumes "resource w = Some m" "n \<noteq> name" "name \<noteq> ''envAtlas''"
  shows "\<exists>w'. bind_cubemap n w = Inr w' \<and> unchanged_at name w w'"
  using assms
  by (auto simp add: bind_cubemap_def Let_def unchanged_at_def assignCubemap_def
      with_material_def assets_load_def set_reference_def
      split: option.splits)

lemma for_each_other:
  assumes "\<forall>n \<in> set names. \<forall>w m. resource w = Some m \<longrightarrow>
             (\<exists>w'. f n w = Inr w' \<and> unchanged_at name w w')"
    and "resource w = Some m"
  shows "\<exists>w'. for_each f names w = Inr w' \<and> unchanged_at name w w'"
  using assms
proof (induction names arbitrary: w m)
  case Nil
  then show ?case by (simp add: unchanged_at_refl)
next
  case (Cons n names)
  from Cons.prems
  obtain w1 where w1: "f n w = Inr w1" "unchanged_at name w w1" by auto
  then obtain m1 where m1: "resource w1 = Some m1" by (auto simp add: unchanged_at_def)
  have "\<forall>n \<in> set names. \<forall>w m. resource w = Some m \<longrightarrow>
             (\<exists>w'. f n w = Inr w' \<and> unchanged_at name w w')"
    using Cons.prems(1) by simp
  from Cons.IH [OF this m1]
  obtain w2 where "for_each f names w1 = Inr w2" "unchanged_at name w1 w2" by blast
  then show ?case using w1 unchanged_at_trans by auto
qed

lemma for_each_append:
  "for_each f (xs @ ys) w = (case for_each f xs w of Inl e \<Rightarrow> Inl e | Inr w1 \<Rightarrow> for_each f ys w1)"
  by (induction xs arbitrary: w) (auto split: sum.splits)

lemma bind_texture_placeholder:
  assumes "resource w = Some m" "\<not> mappingFormat_path (data w)"
    and "params (data w) name = Val (Id x)" "x \<noteq> 0"
    and "find (\<lambda>a. asset_id a = x) (registry w) = Some X" "\<not> truthy (resource_of X)"
    and "\<not> truthy (props m name) \<or> \<not> validated (data w) \<or> props m name = getPlaceholderTexture name"
  shows "\<exists>w1 m1. bind_texture name w = Inr w1 \<and> resource w1 = Some m1 \<and>
           props m1 name = getPlaceholderTexture name \<and>
           loads w1 = loads w @ [asset_id X] \<and>
           data w1 = data w \<and> registry w1 = registry w \<and> initializes w1 = initializes w \<and>
           updates m1 = updates m"
proof -
  let ?r0 = "case assetReferences m name of None \<Rightarrow> \<lparr>ref_id = Null, ref_url = Null\<rparr> | Some r \<Rightarrow> r"
  let ?r1 = "?r0\<lparr>ref_id := Val (Id x)\<rparr>"
  let ?w1 = "w\<lparr>resource := Some (set_reference name ?r1 m)\<rparr>"
  have t: "truthy_ident (params (data w) name)"
    using assms(3,4) by (simp add: truthy_ident_def)
  have ra: "ref_asset (registry ?w1) ?r1 = Some X"
    using assms(5) by (simp add: ref_asset_def)
  have pl: "assignPlaceholderTexture name ?w1 =
      Inr (?w1\<lparr>resource := Some ((set_reference name ?r1 m)
             \<lparr>props := (props (set_reference name ?r1 m))(name := getPlaceholderTexture name)\<rparr>)\<rparr>)"
    by (simp add: assignPlaceholderTexture_def assignTexture_def with_material_def)
  have "bind_texture name w =
      Inr (assets_load X (?w1\<lparr>resource := Some ((set_reference name ?r1 m)
             \<lparr>props := (props (set_reference name ?r1 m))(name := getPlaceholderTexture name)\<rparr>)\<rparr>))"
    unfolding bind_texture_def Let_def
    using assms(1,2,3,6,7) t ra pl by simp
  then show ?thesis
    by (simp add: assets_load_def set_reference_def)
qed

lemma onTextureLoad_effect:
  assumes "resource w = Some m"
  shows "\<exists>w2 m2. onTextureLoad name X w = Inr w2 \<and> resource w2 = Some m2 \<and>
           props m2 name = resource_of X \<and> updates m2 = Suc (updates m) \<and>
           initializes w2 = initializes w \<and> loads w2 = loads w"
  using assms
  by (simp add: onTextureLoad_def assignTexture_def with_material_def material_update_def)

lemma bind_all_requests:
  assumes "resource w = Some m" "distinct TEXTURES" "name \<in> set TEXTURES"
    and "name \<notin> set CUBEMAPS" "name \<noteq> ''envAtlas''"
    and "\<not> mappingFormat_path (data w)"
    and "params (data w) name = Val (Id x)" "x \<noteq> 0"
    and "find (\<lambda>a. asset_id a = x) (registry w) = Some X" "\<not> truthy (resource_of X)"
    and "\<not> truthy (props m name) \<or> \<not> validated (data w) \<or> props m name = getPlaceholderTexture name"
  shows "\<exists>w' m' more. bindAndAssignAssets TEXTURES CUBEMAPS w = Inr w' \<and> resource w' = Some m' \<and>
           props m' name = getPlaceholderTexture name \<and>
           loads w' = loads w @ more \<and> asset_id X \<in> set more \<and>
           initializes w' = Suc (initializes w) \<and> data w' = data w \<and> registry w' = registry w"
proof -
  from assms(3) obtain pre post where sp: "TEXTURES = pre @ name # post"
    by (meson split_list)
  with assms(2) have ni: "name \<notin> set pre" "name \<notin> set post" by auto
  have step: "\<forall>n \<in> set names. \<forall>w m. resource w = Some m \<longrightarrow>
        (\<exists>w'. bind_texture n w = Inr w' \<and> unchanged_at name w w')"
    if "name \<notin> set names" for names
  proof (intro ballI allI impI)
    fix n and w :: resolver and m assume n: "n \<in> set names" and r: "resource w = Some m"
    from n that have "n \<noteq> name" by auto
    with r show "\<exists>w'. bind_texture n w = Inr w' \<and> unchanged_at name w w'"
      by (rule bind_texture_other)
  qed
  have cstep: "\<forall>n \<in> set CUBEMAPS. \<forall>w m. resource w = Some m \<longrightarrow>
        (\<exists>w'. bind_cubemap n w = Inr w' \<and> unchanged_at name w w')"
  proof (intro ballI allI impI)
    fix n and w :: resolver and m assume n: "n \<in> set CUBEMAPS" and r: "resource w = Some m"
    from n assms(4) have "n \<noteq> name" by auto
    with r show "\<exists>w'. bind_cubemap n w = Inr w' \<and> unchanged_at name w w'"
      using assms(5) by (rule bind_cubemap_other)
  qed
  from for_each_other [OF step [OF ni(1)] assms(1)]
  obtain wp where wp: "for_each bind_texture pre w = Inr wp" "unchanged_at name w wp" by blast
  then obtain mp where mp: "resource wp = Some mp" "props mp name = props m name"
    "data wp = data w" "registry wp = registry w" "initializes wp = initializes w"
    using assms(1) unfolding unchanged_at_def by force
  from wp(2) obtain morep where morep: "loads wp = loads w @ morep"
    unfolding unchanged_at_def by blast
  have hp: "\<not> mappingFormat_path (data wp)" "params (data wp) name = Val (Id x)"
    "find (\<lambda>a. asset_id a = x) (registry wp) = Some X"
    "\<not> truthy (props mp name) \<or> \<not> validated (data wp) \<or> props mp name = getPlaceholderTexture name"
    using mp(2,3,4) assms(6,7,9,11) by simp_all
  from bind_texture_placeholder [OF mp(1) hp(1,2) assms(8) hp(3) assms(10) hp(4)]
  obtain w1 m1 where w1: "bind_texture name wp = Inr w1" "resource w1 = Some m1"
    "props m1 name = getPlaceholderTexture name" "loads w1 = loads wp @ [asset_id X]"
    "initializes w1 = initializes wp" "data w1 = data wp" "registry w1 = registry wp"
    by blast
  from for_each_other [OF step [OF ni(2)] w1(2)]
  obtain w2 where w2: "for_each bind_texture post w1 = Inr w2" "unchanged_at name w1 w2" by blast
  then obtain m2 where m2: "resource w2 = Some m2" by (auto simp add: unchanged_at_def)
  from for_each_other [OF cstep m2]
  obtain w3 where w3: "for_each bind_cubemap CUBEMAPS w2 = Inr w3" "unchanged_at name w2 w3" by blast
  have u: "unchanged_at name w1 w3" using w2(2) w3(2) by (rule unchanged_at_trans)
  then obtain m3 where m3: "resource w3 = Some m3" "props m3 name = props m1 name"
    "initializes w3 = initializes w1" "data w3 = data w1" "registry w3 = registry w1"
    using w1(2) unfolding unchanged_at_def by force
  from u obtain more where more: "loads w3 = loads w1 @ more"
    unfolding unchanged_at_def by blast
  have "for_each bind_texture TEXTURES w = Inr w2"
    using sp wp(1) w1(1) w2(1) by (simp add: for_each_append)
  then have "bindAndAssignAssets TEXTURES CUBEMAPS w = Inr (parser_initialize w3)"
    using w3(1) by (simp add: bindAndAssignAssets_def)
  moreover have "resource (parser_initialize w3) = Some m3"
    "initializes (parser_initialize w3) = Suc (initializes w)"
    "data (parser_initialize w3) = data w" "registry (parser_initialize w3) = registry w"
    using m3 w1(5,6,7) mp(3,4,5) by (simp_all add: parser_initialize_def)
  moreover have "loads (parser_initialize w3) = loads w @ (morep @ [asset_id X] @ more)"
    using more w1(4) morep by (simp add: parser_initialize_def)
  moreover have "asset_id X \<in> set (morep @ [asset_id X] @ more)" by simp
  moreover have "props m3 name = getPlaceholderTexture name" using m3(2) w1(3) by simp
  ultimately show ?thesis by blast
qed

lemma bind_all_placeholder:
  assumes "resource w = Some m" "distinct TEXTURES" "name \<in> set TEXTURES"
    and "name \<notin> set CUBEMAPS" "name \<noteq> ''envAtlas''"
    and "\<not> mappingFormat_path (data w)"
    and "params (data w) name = Val (Id x)" "x \<noteq> 0"
    and "find (\<lambda>a. asset_id a = x) (registry w) = Some X" "\<not> truthy (resource_of X)"
    and "\<not> truthy (props m name) \<or> \<not> validated (data w) \<or> props m name = getPlaceholderTexture name"
  shows "\<exists>w' m'. bindAndAssignAssets TEXTURES CUBEMAPS w = Inr w' \<and> resource w' = Some m' \<and>
           props m' name = getPlaceholderTexture name \<and> asset_id X \<in> set (loads w') \<and>
           initializes w' = Suc (initializes w)"
proof -
  from bind_all_requests [OF assms]
  obtain w' m' more where "bindAndAssignAssets TEXTURES CUBEMAPS w = Inr w'" "resource w' = Some m'"
    "props m' name = getPlaceholderTexture name" "loads w' = loads w @ more"
    "asset_id X \<in> set more" "initializes w' = Suc (initializes w)"
    by blast
  then show ?thesis by simp
qed


text \<open>
  Claim C7, evaluated. The data of a new material binds \<open>diffuseMap\<close> to asset id 7, which
  is not loaded. When the registry does not hold an asset of that id yet, the reference
  has no asset and the resolve assigns nothing: the slot stays \<open>null\<close>, and no load is
  requested. When the slot holds another texture and the data is validated, the resolve
  leaves that texture in the slot.
\<close>

theorem placeholder_substitution_counterexample:
  "(case bindAndAssignAssets [''diffuseMap''] [] unregistered_resolver of
      Inl e \<Rightarrow> False
    | Inr w \<Rightarrow> map_option (\<lambda>m. props m ''diffuseMap'') (resource w) = Some Null \<and> loads w = []) \<and>
   (case bindAndAssignAssets [''diffuseMap''] [] rebound_resolver of
      Inl e \<Rightarrow> False
    | Inr w \<Rightarrow> map_option (\<lambda>m. props m ''diffuseMap'') (resource w) = Some (Val (Texture 5)) \<and>
              loads w = [])"
  by (simp add: handler_defs sample_defs)

text \<open>
  Claim C7, amended. The material exists; its data binds \<open>diffuseMap\<close> by id to an asset
  \<open>X\<close> that the registry holds and that is not loaded; and the slot is empty or holds its
  placeholder, or the data is not validated. Then resolving the material assigns the
  \<open>gray\<close> placeholder to the slot and requests the load of \<open>X\<close>. When the load event of
  \<open>X\<close> is delivered afterwards, the slot holds the resource of \<open>X\<close>, and \<open>material.update()\<close>
  is called exactly once; \<open>parser.initialize\<close> is not called by the event.
\<close>

theorem placeholder_substitution_amended:
  assumes "resource w = Some m" "distinct TEXTURES" "''diffuseMap'' \<in> set TEXTURES"
    and "''diffuseMap'' \<notin> set CUBEMAPS"
    and "\<not> mappingFormat_path (data w)"
    and "params (data w) ''diffuseMap'' = Val (Id x)" "x \<noteq> 0"
    and "find (\<lambda>a. asset_id a = x) (registry w) = Some X" "\<not> truthy (resource_of X)"
    and "\<not> truthy (props m ''diffuseMap'') \<or> \<not> validated (data w) \<or>
         props m ''diffuseMap'' = Val (BuiltIn ''gray'')"
  shows "\<exists>w1 m1. bindAndAssignAssets TEXTURES CUBEMAPS w = Inr w1 \<and> resource w1 = Some m1 \<and>
           props m1 ''diffuseMap'' = Val (BuiltIn ''gray'') \<and> asset_id X \<in> set (loads w1) \<and>
           (\<forall>X'. \<exists>w2 m2. onTextureLoad ''diffuseMap'' X' w1 = Inr w2 \<and> resource w2 = Some m2 \<and>
                    props m2 ''diffuseMap'' = resource_of X' \<and>
                    updates m2 = Suc (updates m1) \<and> initializes w2 = initializes w1)"
proof -
  have g: "\<not> truthy (props m ''diffuseMap'') \<or> \<not> validated (data w) \<or>
           props m ''diffuseMap'' = getPlaceholderTexture ''diffuseMap''"
    using assms(10) by (simp add: placeholder_gray)
  from bind_all_placeholder [OF assms(1,2,3,4) _ assms(5,6,7,8,9) g]
  obtain w1 m1 where w1: "bindAndAssignAssets TEXTURES CUBEMAPS w = Inr w1" "resource w1 = Some m1"
    "props m1 ''diffuseMap'' = getPlaceholderTexture ''diffuseMap''" "asset_id X \<in> set (loads w1)"
    by auto
  have "\<forall>X'. \<exists>w2 m2. onTextureLoad ''diffuseMap'' X' w1 = Inr w2 \<and> resource w2 = Some m2 \<and>
                    props m2 ''diffuseMap'' = resource_of X' \<and>
                    updates m2 = Suc (updates m1) \<and> initializes w2 = initializes w1"
    using onTextureLoad_effect [OF w1(2)] by blast
  then show ?thesis using w1 by (auto simp add: placeholder_gray)
qed

lemma sample_resolver_fields:
  "resource sample_resolver = Some sample_material"
  "\<not> mappingFormat_path (data sample_resolver)"
  "params (data sample_resolver) ''diffuseMap'' = Val (Id 7)"
  "find (\<lambda>a. asset_id a = 7) (registry sample_resolver) = Some texture_asset"
  "\<not> truthy (resource_of texture_asset)"
  "\<not> truthy (props sample_material ''diffuseMap'') \<or> \<not> validated (data sample_resolver) \<or>
     props sample_material ''diffuseMap'' = Val (BuiltIn ''gray'')"
  by (simp_all add: sample_defs truthy_def resource_of_def elem_at_def)

theorem placeholder_substitution_witness:
  "resource sample_resolver = Some sample_material \<and>
   distinct [''diffuseMap'', ''normalMap''] \<and> ''diffuseMap'' \<in> set [''diffuseMap'', ''normalMap''] \<and>
   ''diffuseMap'' \<notin> set [''cubeMap''] \<and>
   \<not> mappingFormat_path (data sample_resolver) \<and>
   params (data sample_resolver) ''diffuseMap'' = Val (Id 7) \<and> (7::nat) \<noteq> 0 \<and>
   find (\<lambda>a. asset_id a = 7) (registry sample_resolver) = Some texture_asset \<and>
   \<not> truthy (resource_of texture_asset) \<and>
   \<not> truthy (props sample_material ''diffuseMap'') \<and>
   (case bindAndAssignAssets [''diffuseMap'', ''normalMap''] [''cubeMap''] sample_resolver of
      Inl e \<Rightarrow> False
    | Inr w1 \<Rightarrow>
        map_option (\<lambda>m. props m ''diffuseMap'') (resource w1) = Some (Val (BuiltIn ''gray'')) \<and>
        loads w1 = [7] \<and>
        (case onTextureLoad ''diffuseMap'' texture_asset_loaded w1 of
           Inl e \<Rightarrow> False
         | Inr w2 \<Rightarrow>
             map_option (\<lambda>m. (props m ''diffuseMap'', updates m)) (resource w2)
               = Some (Val (Texture 70), 1) \<and>
             initializes w2 = initializes w1))"
proof -
  have d: "distinct [''diffuseMap'', ''normalMap'']" "''diffuseMap'' \<in> set [''diffuseMap'', ''normalMap'']"
    "''diffuseMap'' \<notin> set [''cubeMap'']" "(7::nat) \<noteq> 0"
    by simp_all
  show ?thesis
    using placeholder_substitution_amended
            [OF sample_resolver_fields(1) d(1,2,3) sample_resolver_fields(2,3) d(4)
                sample_resolver_fields(4,5,6)]
    by (simp add: handler_defs sample_defs)
qed

section \<open>Removal and unloading of a dependency\<close>

lemma onTextureRemove_bound:
  assumes "resource w = Some m" "props m name = resource_of Y"
  shows "onTextureRemoveOrUnload name Y w =
           Inr (w\<lparr>resource := Some (m\<lparr>props := (props m)(name := getPlaceholderTexture name),
                                      updates := Suc (updates m)\<rparr>)\<rparr>)"
  using assms
  by (simp add: onTextureRemoveOrUnload_def assignPlaceholderTexture_def assignTexture_def
      with_material_def material_update_def)

lemma onTextureRemove_other:
  assumes "resource w = Some m" "props m name \<noteq> resource_of Y"
  shows "onTextureRemoveOrUnload name Y w = Inr w"
  using assms by (simp add: onTextureRemoveOrUnload_def)

lemma placeholder_keys_distinct: "distinct (map fst PLACEHOLDER_MAP)"
  by (simp add: PLACEHOLDER_MAP_def)

lemma placeholder_total:
  "(name, p) \<in> set PLACEHOLDER_MAP \<Longrightarrow> getPlaceholderTexture name = Val (BuiltIn p)"
  using map_of_is_SomeI [OF placeholder_keys_distinct]
  by (simp add: getPlaceholderTexture_def)

lemma no_cubemap_placeholder: "map_of PLACEHOLDER_MAP ''cubeMap'' = None"
  by (simp add: PLACEHOLDER_MAP_def)

lemma onCubemapRemove_effect:
  assumes "resource w = Some m" "onCubemapRemoveOrUnload name C w = Inr w1" "resource w1 = Some m1"
  shows "w1 = w \<or> (props m1 name = Null \<and> updates m1 = Suc (updates m))"
  using assms
  by (auto simp add: onCubemapRemoveOrUnload_def assignCubemap_def with_material_def
      material_update_def Let_def truthy_def elem_at_def split: if_splits)

text \<open>
  Claim C8, evaluated on a cubemap slot. The \<open>cubeMap\<close> of the material holds the
  resource of the cubemap asset, and the cubemap is unloaded. The slot does not revert to
  a placeholder, the placeholder map having no entry for \<open>cubeMap\<close>: it is set to \<open>null\<close>.
\<close>

theorem placeholder_reversion_counterexample:
  "map_option (\<lambda>m. props m ''cubeMap'') (resource cubemap_resolver) = Some (resource_of cubemap_asset) \<and>
   resource_of cubemap_asset = Val (Texture 90) \<and>
   map_of PLACEHOLDER_MAP ''cubeMap'' = None \<and>
   (case onCubemapRemoveOrUnload ''cubeMap'' cubemap_asset cubemap_resolver of
      Inl e \<Rightarrow> False
    | Inr w \<Rightarrow> map_option (\<lambda>m. (props m ''cubeMap'', updates m)) (resource w) = Some (Null, 1))"
  by (simp add: handler_defs sample_defs)

text \<open>
  Claim C8, amended. For every texture slot of an existing material and every remove or
  unload event of an asset \<open>Y\<close>: when the slot holds exactly the resource of \<open>Y\<close>, the slot
  reverts to its placeholder, the other slots stay as they are, and \<open>material.update()\<close>
  is called once; when the slot holds another value, nothing changes. Every parameter of
  the placeholder map has its built-in texture as placeholder, \<open>gray\<close> for \<open>diffuseMap\<close>.
  A cubemap slot has no placeholder: when its handler changes anything, it sets the slot
  to \<open>null\<close> and calls \<open>material.update()\<close> once.
\<close>

theorem placeholder_reversion_amended:
  assumes "resource w = Some m"
  shows "(props m name = resource_of Y \<longrightarrow>
            (\<exists>w1 m1. onTextureRemoveOrUnload name Y w = Inr w1 \<and> resource w1 = Some m1 \<and>
               props m1 name = getPlaceholderTexture name \<and>
               (\<forall>n. n \<noteq> name \<longrightarrow> props m1 n = props m n) \<and>
               updates m1 = Suc (updates m))) \<and>
         (props m name \<noteq> resource_of Y \<longrightarrow> onTextureRemoveOrUnload name Y w = Inr w) \<and>
         (\<forall>p. (name, p) \<in> set PLACEHOLDER_MAP \<longrightarrow> getPlaceholderTexture name = Val (BuiltIn p)) \<and>
         getPlaceholderTexture ''diffuseMap'' = Val (BuiltIn ''gray'') \<and>
         map_of PLACEHOLDER_MAP ''cubeMap'' = None \<and>
         (\<forall>w1 m1. onCubemapRemoveOrUnload name C w = Inr w1 \<and> resource w1 = Some m1 \<longrightarrow>
            w1 = w \<or> (props m1 name = Null \<and> updates m1 = Suc (updates m)))"
proof -
  have "props m name = resource_of Y \<longrightarrow>
            (\<exists>w1 m1. onTextureRemoveOrUnload name Y w = Inr w1 \<and> resource w1 = Some m1 \<and>
               props m1 name = getPlaceholderTexture name \<and>
               (\<forall>n. n \<noteq> name \<longrightarrow> props m1 n = props m n) \<and>
               updates m1 = Suc (updates m))"
    using onTextureRemove_bound [OF assms, of name Y] by simp
  moreover have "props m name \<noteq> resource_of Y \<longrightarrow> onTextureRemoveOrUnload name Y w = Inr w"
    using onTextureRemove_other [OF assms, of name Y] by simp
  moreover have "\<forall>w1 m1. onCubemapRemoveOrUnload name C w = Inr w1 \<and> resource w1 = Some m1 \<longrightarrow>
            w1 = w \<or> (props m1 name = Null \<and> updates m1 = Suc (updates m))"
    using onCubemapRemove_effect [OF assms, of name C] by blast
  ultimately show ?thesis
    using placeholder_total [of name] placeholder_gray no_cubemap_placeholder by blast
qed

theorem placeholder_reversion_witness:
  "resource rebound_resolver = Some (sample_material\<lparr>props := (\<lambda>n. if n = ''diffuseMap'' then Val (Texture 5) else Null)\<rparr>) \<and>
   resource_of other_asset = Val (Texture 5) \<and>
   (case onTextureRemoveOrUnload ''diffuseMap'' other_asset rebound_resolver of
      Inl e \<Rightarrow> False
    | Inr w1 \<Rightarrow> map_option (\<lambda>m. (props m ''diffuseMap'', updates m)) (resource w1)
                 = Some (Val (BuiltIn ''gray''), 1)) \<and>
   onTextureRemoveOrUnload ''diffuseMap'' texture_asset_loaded rebound_resolver = Inr rebound_resolver"
proof -
  have r: "resource rebound_resolver =
      Some (sample_material\<lparr>props := (\<lambda>n. if n = ''diffuseMap'' then Val (Texture 5) else Null)\<rparr>)"
    by (simp add: sample_defs)
  show ?thesis
    using placeholder_reversion_amended [OF r, of "''diffuseMap''" other_asset cubemap_asset]
          placeholder_reversion_amended [OF r, of "''diffuseMap''" texture_asset_loaded cubemap_asset]
    by (simp add: handler_defs sample_defs other_asset_def)
qed

section \<open>Resolving twice\<close>

lemma bind_texture_initializes:
  assumes "bind_texture n w = Inr w'"
  shows "initializes w' = initializes w \<and> resource w' \<noteq> None"
proof (cases "resource w")
  case None
  then show ?thesis using assms by (simp add: bind_texture_def)
next
  case (Some m)
  have "n \<noteq> CHR ''x'' # n" by simp
  from bind_texture_other [OF Some this]
  show ?thesis using assms by (auto simp add: unchanged_at_def)
qed

lemma bind_cubemap_initializes:
  assumes "bind_cubemap n w = Inr w'"
  shows "initializes w' = initializes w \<and> resource w' \<noteq> None"
proof (cases "resource w")
  case None
  then show ?thesis using assms by (simp add: bind_cubemap_def)
next
  case (Some m)
  let ?name = "if n = ''x'' then ''y'' else ''x''"
  have "n \<noteq> ?name" "?name \<noteq> ''envAtlas''" by simp_all
  from bind_cubemap_other [OF Some this]
  show ?thesis using assms by (auto simp add: unchanged_at_def)
qed

lemma for_each_initializes:
  assumes "\<forall>n w w'. f n w = Inr w' \<longrightarrow> initializes w' = initializes w"
    and "for_each f names w = Inr w'"
  shows "initializes w' = initializes w"
  using assms(2)
proof (induction names arbitrary: w)
  case Nil
  then show ?case by simp
next
  case (Cons n names)
  from Cons.prems obtain w1 where w1: "f n w = Inr w1" "for_each f names w1 = Inr w'"
    by (auto split: sum.splits)
  then show ?case using Cons.IH [OF w1(2)] assms(1) by simp
qed

lemma resolve_initializes_once:
  assumes "bindAndAssignAssets TEXTURES CUBEMAPS w = Inr w'"
  shows "initializes w' = Suc (initializes w)"
proof -
  from assms obtain w1 w2 where s: "for_each bind_texture TEXTURES w = Inr w1"
    "for_each bind_cubemap CUBEMAPS w1 = Inr w2" "w' = parser_initialize w2"
    by (auto simp add: bindAndAssignAssets_def split: sum.splits)
  have "initializes w1 = initializes w"
    using for_each_initializes [OF _ s(1)] bind_texture_initializes by blast
  moreover have "initializes w2 = initializes w1"
    using for_each_initializes [OF _ s(2)] bind_cubemap_initializes by blast
  ultimately show ?thesis using s(3) by (simp add: parser_initialize_def)
qed

text \<open>A texture parameter that the loop leaves unbound: the data names no asset for it,
  or the data is validated and the slot holds a texture that is not the placeholder.\<close>

lemma bind_texture_no_load:
  assumes "resource u = Some k"
    and "\<not> truthy_ident (params (data u) n) \<or>
         validated (data u) \<and> truthy (props k n) \<and> props k n \<noteq> getPlaceholderTexture n"
  shows "\<exists>u1 k1. bind_texture n u = Inr u1 \<and> resource u1 = Some k1 \<and> props k1 = props k \<and>
           loads u1 = loads u \<and> data u1 = data u"
  using assms
  by (cases "assetReferences k n") (auto simp add: bind_texture_def Let_def set_reference_def)

lemma for_each_texture_no_load:
  assumes "resource u = Some k"
    and "\<forall>n \<in> set names. \<not> truthy_ident (params (data u) n) \<or>
           validated (data u) \<and> truthy (props k n) \<and> props k n \<noteq> getPlaceholderTexture n"
  shows "\<exists>u1 k1. for_each bind_texture names u = Inr u1 \<and> resource u1 = Some k1 \<and>
           props k1 = props k \<and> loads u1 = loads u \<and> data u1 = data u"
  using assms
proof (induction names arbitrary: u k)
  case Nil
  then show ?case by simp
next
  case (Cons n names)
  have "\<not> truthy_ident (params (data u) n) \<or>
         validated (data u) \<and> truthy (props k n) \<and> props k n \<noteq> getPlaceholderTexture n"
    using Cons.prems(2) by simp
  from bind_texture_no_load [OF Cons.prems(1) this]
  obtain u1 k1 where u1: "bind_texture n u = Inr u1" "resource u1 = Some k1" "props k1 = props k"
    "loads u1 = loads u" "data u1 = data u" by blast
  have "\<forall>n \<in> set names. \<not> truthy_ident (params (data u1) n) \<or>
           validated (data u1) \<and> truthy (props k1 n) \<and> props k1 n \<noteq> getPlaceholderTexture n"
    using Cons.prems(2) u1(3,5) by simp
  from Cons.IH [OF u1(2) this]
  obtain u2 k2 where "for_each bind_texture names u1 = Inr u2" "resource u2 = Some k2"
    "props k2 = props k1" "loads u2 = loads u1" "data u2 = data u1" by blast
  then show ?case using u1 by simp
qed

lemma for_each_cubemap_no_load:
  assumes "resource u = Some k"
    and "\<forall>n \<in> set names. \<not> truthy_ident (params (data u) n) \<or>
           truthy_ident (prefilteredCubeMap128 (data u))"
  shows "for_each bind_cubemap names u = Inr u"
  using assms
proof (induction names)
  case Nil
  then show ?case by simp
next
  case (Cons n names)
  have "bind_cubemap n u = Inr u"
    using Cons.prems by (auto simp add: bind_cubemap_def Let_def)
  then show ?case using Cons by simp
qed

lemma resolve_no_load:
  assumes "resource u = Some k" "validated (data u)"
    and "\<forall>n \<in> set TEXTURES. \<not> truthy_ident (params (data u) n) \<or>
           truthy (props k n) \<and> props k n \<noteq> getPlaceholderTexture n"
    and "\<forall>n \<in> set CUBEMAPS. \<not> truthy_ident (params (data u) n) \<or>
           truthy_ident (prefilteredCubeMap128 (data u))"
  shows "\<exists>u1. bindAndAssignAssets TEXTURES CUBEMAPS u = Inr u1 \<and> loads u1 = loads u"
proof -
  have "\<forall>n \<in> set TEXTURES. \<not> truthy_ident (params (data u) n) \<or>
           validated (data u) \<and> truthy (props k n) \<and> props k n \<noteq> getPlaceholderTexture n"
    using assms(2,3) by simp
  from for_each_texture_no_load [OF assms(1) this]
  obtain u1 k1 where u1: "for_each bind_texture TEXTURES u = Inr u1" "resource u1 = Some k1"
    "loads u1 = loads u" "data u1 = data u" by blast
  have "\<forall>n \<in> set CUBEMAPS. \<not> truthy_ident (params (data u1) n) \<or>
           truthy_ident (prefilteredCubeMap128 (data u1))"
    using assms(4) u1(4) by simp
  from for_each_cubemap_no_load [OF u1(2) this]
  have "for_each bind_cubemap CUBEMAPS u1 = Inr u1" .
  then have "bindAndAssignAssets TEXTURES CUBEMAPS u = Inr (parser_initialize u1)"
    using u1(1) by (simp add: bindAndAssignAssets_def)
  then show ?thesis using u1(3) by (simp add: parser_initialize_def)
qed

text \<open>A texture parameter whose asset is registered and not loaded: two calls in
  succession request its load twice.\<close>

lemma resolve_requests_again:
  assumes "resource v = Some m" "distinct TEXTURES" "name \<in> set TEXTURES"
    and "name \<notin> set CUBEMAPS" "name \<noteq> ''envAtlas''"
    and "\<not> mappingFormat_path (data v)"
    and "params (data v) name = Val (Id x)" "x \<noteq> 0"
    and "find (\<lambda>a. asset_id a = x) (registry v) = Some X" "\<not> truthy (resource_of X)"
    and "\<not> truthy (props m name) \<or> \<not> validated (data v) \<or> props m name = getPlaceholderTexture name"
  shows "\<exists>v1 v2 more1 more2.
           bindAndAssignAssets TEXTURES CUBEMAPS v = Inr v1 \<and>
           bindAndAssignAssets TEXTURES CUBEMAPS v1 = Inr v2 \<and>
           data v1 = data v \<and> data v2 = data v \<and>
           loads v1 = loads v @ more1 \<and> asset_id X \<in> set more1 \<and>
           loads v2 = loads v1 @ more2 \<and> asset_id X \<in> set more2"
proof -
  from bind_all_requests [OF assms]
  obtain v1 m1 more1 where v1: "bindAndAssignAssets TEXTURES CUBEMAPS v = Inr v1"
    "resource v1 = Some m1" "props m1 name = getPlaceholderTexture name"
    "loads v1 = loads v @ more1" "asset_id X \<in> set more1"
    "data v1 = data v" "registry v1 = registry v"
    by blast
  have h: "\<not> mappingFormat_path (data v1)" "params (data v1) name = Val (Id x)"
    "find (\<lambda>a. asset_id a = x) (registry v1) = Some X"
    "\<not> truthy (props m1 name) \<or> \<not> validated (data v1) \<or>
       props m1 name = getPlaceholderTexture name"
    using v1(3,6,7) assms(6,7,9) by simp_all
  from bind_all_requests [OF v1(2) assms(2,3,4,5) h(1,2) assms(8) h(3) assms(10) h(4)]
  obtain v2 m2 more2 where v2: "bindAndAssignAssets TEXTURES CUBEMAPS v1 = Inr v2"
    "loads v2 = loads v1 @ more2" "asset_id X \<in> set more2" "data v2 = data v1"
    by blast
  show ?thesis using v1(1,4,5,6) v2 by auto
qed

text \<open>
  Claim C9, evaluated. The sample material is resolved twice with the same data, its
  texture asset registered and not loaded. The second call requests the load of the
  asset again and calls \<open>parser.initialize\<close> again.
\<close>

theorem resolve_twice_counterexample:
  "(case bindAndAssignAssets [''diffuseMap''] [] sample_resolver of
      Inl e \<Rightarrow> False
    | Inr w1 \<Rightarrow> loads w1 = [7] \<and> initializes w1 = 1 \<and> data w1 = data sample_resolver \<and>
        (case bindAndAssignAssets [''diffuseMap''] [] w1 of
           Inl e \<Rightarrow> False
         | Inr w2 \<Rightarrow> loads w2 = [7, 7] \<and> initializes w2 = 2))"
  by (simp add: handler_defs sample_defs)

text \<open>
  Claim C9, amended. Every call of the resolve that returns calls \<open>parser.initialize\<close>
  exactly once, so a second call calls it once more. Take a texture parameter that is
  once in the list of texture parameters, is not a cubemap parameter and is not
  \<open>envAtlas\<close>, for which the data names by id an asset that is registered and not
  loaded, and whose slot holds nothing or its placeholder, or the data is not validated:
  a call of the resolve requests the load of that asset and leaves the data as it is,
  and a second call right after it requests the load again. When the data is validated,
  every texture parameter either has no asset named in the data or has in its slot a
  texture that is not its placeholder, and every cubemap parameter either has no asset
  named in the data or the data has a prefiltered cubemap, a call of the resolve
  requests no load.
\<close>

theorem resolve_twice_amended:
  "(bindAndAssignAssets TEXTURES CUBEMAPS w = Inr w1 \<longrightarrow> initializes w1 = Suc (initializes w)) \<and>
   (bindAndAssignAssets TEXTURES CUBEMAPS w = Inr w1 \<and>
    bindAndAssignAssets TEXTURES CUBEMAPS w1 = Inr w2 \<longrightarrow> initializes w2 = initializes w + 2) \<and>
   (resource v = Some m \<and> distinct TEXTURES \<and> name \<in> set TEXTURES \<and> name \<notin> set CUBEMAPS \<and>
    name \<noteq> ''envAtlas'' \<and> \<not> mappingFormat_path (data v) \<and>
    params (data v) name = Val (Id x) \<and> x \<noteq> 0 \<and>
    find (\<lambda>a. asset_id a = x) (registry v) = Some X \<and> \<not> truthy (resource_of X) \<and>
    (\<not> truthy (props m name) \<or> \<not> validated (data v) \<or>
     props m name = getPlaceholderTexture name) \<longrightarrow>
      (\<exists>v1 v2 more1 more2.
         bindAndAssignAssets TEXTURES CUBEMAPS v = Inr v1 \<and>
         bindAndAssignAssets TEXTURES CUBEMAPS v1 = Inr v2 \<and>
         data v1 = data v \<and> data v2 = data v \<and>
         loads v1 = loads v @ more1 \<and> asset_id X \<in> set more1 \<and>
         loads v2 = loads v1 @ more2 \<and> asset_id X \<in> set more2)) \<and>
   (resource u = Some k \<and> validated (data u) \<and>
    (\<forall>n \<in> set TEXTURES. \<not> truthy_ident (params (data u) n) \<or>
       truthy (props k n) \<and> props k n \<noteq> getPlaceholderTexture n) \<and>
    (\<forall>n \<in> set CUBEMAPS. \<not> truthy_ident (params (data u) n) \<or>
       truthy_ident (prefilteredCubeMap128 (data u))) \<longrightarrow>
      (\<exists>u1. bindAndAssignAssets TEXTURES CUBEMAPS u = Inr u1 \<and> loads u1 = loads u))"
proof -
  have 1: "bindAndAssignAssets TEXTURES CUBEMAPS w = Inr w1 \<longrightarrow> initializes w1 = Suc (initializes w)"
    using resolve_initializes_once by blast
  have 2: "bindAndAssignAssets TEXTURES CUBEMAPS w = Inr w1 \<and>
    bindAndAssignAssets TEXTURES CUBEMAPS w1 = Inr w2 \<longrightarrow> initializes w2 = initializes w + 2"
    using resolve_initializes_once [of TEXTURES CUBEMAPS w w1]
      resolve_initializes_once [of TEXTURES CUBEMAPS w1 w2] by simp
  have 3: "resource v = Some m \<and> distinct TEXTURES \<and> name \<in> set TEXTURES \<and> name \<notin> set CUBEMAPS \<and>
    name \<noteq> ''envAtlas'' \<and> \<not> mappingFormat_path (data v) \<and>
    params (data v) name = Val (Id x) \<and> x \<noteq> 0 \<and>
    find (\<lambda>a. asset_id a = x) (registry v) = Some X \<and> \<not> truthy (resource_of X) \<and>
    (\<not> truthy (props m name) \<or> \<not> validated (data v) \<or>
     props m name = getPlaceholderTexture name) \<longrightarrow>
      (\<exists>v1 v2 more1 more2.
         bindAndAssignAssets TEXTURES CUBEMAPS v = Inr v1 \<and>
         bindAndAssignAssets TEXTURES CUBEMAPS v1 = Inr v2 \<and>
         data v1 = data v \<and> data v2 = data v \<and>
         loads v1 = loads v @ more1 \<and> asset_id X \<in> set more1 \<and>
         loads v2 = loads v1 @ more2 \<and> asset_id X \<in> set more2)"
    using resolve_requests_again [of v m TEXTURES name CUBEMAPS x X] by blast
  have 4: "resource u = Some k \<and> validated (data u) \<and>
    (\<forall>n \<in> set TEXTURES. \<not> truthy_ident (params (data u) n) \<or>
       truthy (props k n) \<and> props k n \<noteq> getPlaceholderTexture n) \<and>
    (\<forall>n \<in> set CUBEMAPS. \<not> truthy_ident (params (data u) n) \<or>
       truthy_ident (prefilteredCubeMap128 (data u))) \<longrightarrow>
      (\<exists>u1. bindAndAssignAssets TEXTURES CUBEMAPS u = Inr u1 \<and> loads u1 = loads u)"
    using resolve_no_load [of u k TEXTURES CUBEMAPS] by blast
  show ?thesis using 1 2 3 4 by blast
qed

theorem resolve_twice_witness:
  "resource sample_resolver = Some sample_material \<and> distinct [''diffuseMap''] \<and>
   ''diffuseMap'' \<in> set [''diffuseMap''] \<and> ''diffuseMap'' \<notin> set [''cubeMap''] \<and>
   \<not> mappingFormat_path (data sample_resolver) \<and>
   params (data sample_resolver) ''diffuseMap'' = Val (Id 7) \<and>
   find (\<lambda>a. asset_id a = 7) (registry sample_resolver) = Some texture_asset \<and>
   \<not> truthy (resource_of texture_asset) \<and> \<not> truthy (props sample_material ''diffuseMap'') \<and>
   resource rebound_resolver = Some (sample_material\<lparr>props := (\<lambda>n. if n = ''diffuseMap'' then Val (Texture 5) else Null)\<rparr>) \<and>
   validated (data rebound_resolver) \<and>
   truthy (Val (Texture 5)) \<and> Val (Texture 5) \<noteq> getPlaceholderTexture ''diffuseMap'' \<and>
   \<not> truthy_ident (params (data rebound_resolver) ''cubeMap'') \<and>
   (case bindAndAssignAssets [''diffuseMap''] [''cubeMap''] sample_resolver of
      Inl e \<Rightarrow> False
    | Inr w1 \<Rightarrow> initializes w1 = 1 \<and> loads w1 = [7] \<and>
        (case bindAndAssignAssets [''diffuseMap''] [''cubeMap''] w1 of
           Inl e \<Rightarrow> False
         | Inr w2 \<Rightarrow> initializes w2 = 2 \<and> loads w2 = [7, 7])) \<and>
   (case bindAndAssignAssets [''diffuseMap''] [''cubeMap''] rebound_resolver of
      Inl e \<Rightarrow> False
    | Inr u1 \<Rightarrow> loads u1 = [])"
  using resolve_twice_amended
          [where TEXTURES = "[''diffuseMap'']" and CUBEMAPS = "[''cubeMap'']" and w = sample_resolver
             and v = sample_resolver and m = sample_material
             and name = "''diffuseMap''" and x = 7 and X = texture_asset
             and u = rebound_resolver
             and k = "sample_material\<lparr>props := (\<lambda>n. if n = ''diffuseMap'' then Val (Texture 5) else Null)\<rparr>"]
  by (simp add: handler_defs sample_defs)

end
